theory Spec2Isabelle
  imports Main "HOL-Library.Word"
begin

section \<open>Data model of db/repair.cc\<close>

type_synonym u64 = "64 word"
type_synonym u32 = "32 word"

text \<open>
  A \<open>Status\<close> is a code with two message parts (\<open>Status::IOError(msg, msg2)\<close>); a call with
  one message leaves the second part empty.
\<close>

datatype status =
    OK
  | NotFound string string
  | Corruption string string
  | NotSupported string string
  | InvalidArgument string string
  | IOError string string

fun ok :: "status \<Rightarrow> bool" where
  "ok OK = True"
| "ok _ = False"

datatype FileType =
    kLogFile | kDBLockFile | kTableFile | kDescriptorFile
  | kCurrentFile | kTempFile | kInfoLogFile

record FileMetaData =
  number :: u64
  file_size :: u64
  smallest :: string
  largest :: string

record TableInfo =
  meta :: FileMetaData
  max_sequence :: u64

record ParsedInternalKey =
  user_key :: string
  sequence :: u64
  key_type :: "8 word"

text \<open>
  A write batch as the repairer sees it: the header's sequence, the header's count as the
  value \<open>WriteBatchInternal::Count\<close> has after its conversion to \<open>uint64_t\<close> (both places
  that do arithmetic with it convert it), and the mutations, which the repairer never
  looks into.
\<close>

record WriteBatch =
  Sequence :: u64
  Count :: u64
  payload :: string

text \<open>
  A record of a log file as \<open>log::Reader::ReadRecord\<close> returns it: its size and the batch
  that \<open>WriteBatchInternal::SetContents\<close> makes of it (which has a header only when the size
  is at least 12).
\<close>

record log_record =
  rec_size :: nat
  rec_batch :: WriteBatch

text \<open>
  Modelled from the spec: the \<open>VersionEdit\<close> of db/version\_edit.h, which is not part of the
  sources at hand: the comparator name, log number, next file number and last sequence,
  each set or not, and the list of added files with their level.
\<close>

record VersionEdit =
  comparator' :: "string option"
  ve_log_number' :: "u64 option"
  ve_next_file_number' :: "u64 option"
  ve_last_sequence' :: "u64 option"
  new_files' :: "(nat \<times> FileMetaData) list"

definition SetComparatorName :: "string \<Rightarrow> VersionEdit \<Rightarrow> VersionEdit" where
  "SetComparatorName n e = e\<lparr>comparator' := Some n\<rparr>"

definition SetLogNumber :: "u64 \<Rightarrow> VersionEdit \<Rightarrow> VersionEdit" where
  "SetLogNumber n e = e\<lparr>ve_log_number' := Some n\<rparr>"

definition SetNextFile :: "u64 \<Rightarrow> VersionEdit \<Rightarrow> VersionEdit" where
  "SetNextFile n e = e\<lparr>ve_next_file_number' := Some n\<rparr>"

definition SetLastSequence :: "u64 \<Rightarrow> VersionEdit \<Rightarrow> VersionEdit" where
  "SetLastSequence n e = e\<lparr>ve_last_sequence' := Some n\<rparr>"

definition AddFile :: "nat \<Rightarrow> u64 \<Rightarrow> u64 \<Rightarrow> string \<Rightarrow> string \<Rightarrow> VersionEdit \<Rightarrow> VersionEdit" where
  "AddFile level n sz s l e =
     e\<lparr>new_files' := new_files' e @
          [(level, \<lparr>number = n, file_size = sz, smallest = s, largest = l\<rparr>)]\<rparr>"

definition empty_edit :: VersionEdit where
  "empty_edit = \<lparr>comparator' = None, ve_log_number' = None, ve_next_file_number' = None,
                 ve_last_sequence' = None, new_files' = []\<rparr>"

subsection \<open>What the repairer does to the outside, as a trace\<close>

text \<open>
  Every call of the environment, the table cache, the table builder and the memtable is
  an event, and so is every line given to \<open>Log\<close> (one constructor for each call of \<open>Log\<close> in
  the source, with its arguments; the escaping of a key and the formatting are left out).
\<close>

datatype log_line =
    LogLogIgnoringConversionError string u64 status
  | LogDuplicateRecord string u64 u64
  | LogInsertIgnoring string nat u64 status
  | LogBuildLogFileIgnoring string u32 u64 status
  | LogAddTableMetaIgnoring string u32 u64 status
  | LogLogToTable string u64 int status
  | LogSavedToTable string u32 u64 u64 status
  | LogTableIgnoring string u64 status
  | LogUnparsableKey string u64 string
  | LogTableEntries string u64 int status
  | LogArchiving string string status
  | LogWriteDescriptorError string u32 status
  | LogDroppingBytes u64 nat status
  | LogCreateTableCache string

datatype event =
    EGetChildren string
  | ENewSequentialFile string
  | EGetFileSize string
  | ENewIterator string u64 u64
  | ENewWritableFile string
  | EAddRecord string VersionEdit
  | EClose string
  | ERenameFile string string
  | EDeleteFile string
  | ECreateDir string
  | ESetCurrentFile string u64
  | EBuildTable string u64 "WriteBatch list"
  | EInsertInto string WriteBatch
  | ESanitizeOptions string
  | ELog log_line

text \<open>
  The collaborators that are not part of db/repair.cc are parameters of the model. The
  pure ones (file names, key parsing, the batch codec) are functions of their arguments;
  the answer of each call that touches the file system may depend on everything that
  happened before it, so it is a function of the trace so far. A log file is opened to the
  list of records that \<open>ReadRecord\<close> yields until it returns false; a table iterator is
  the list of keys it yields together with its final status. \<open>SanitizeOptions\<close>
  (db/db\_impl.cc) is such a call as well, since it may prepare an info log; of the options
  it returns, the repairer looks only at whether they carry a table cache.
\<close>

record externals =
  ParseFileName :: "string \<Rightarrow> (u64 \<times> FileType) option"
  BuildFullFileNumber :: "string \<Rightarrow> u64 \<Rightarrow> u64"
  TableFileName :: "string \<Rightarrow> u64 \<Rightarrow> string"
  TempFileName :: "string \<Rightarrow> u64 \<Rightarrow> string"
  DescriptorFileName :: "string \<Rightarrow> u64 \<Rightarrow> string"
  LogHexFileName :: "string \<Rightarrow> u64 \<Rightarrow> string"
  Uint64ToString :: "u64 \<Rightarrow> string"
  ParseInternalKey :: "string \<Rightarrow> ParsedInternalKey option"
  SeperateLocalityGroup :: "WriteBatch \<Rightarrow> nat \<Rightarrow> status \<times> WriteBatch option list"
  InsertInto :: "WriteBatch \<Rightarrow> status"
  comparator_Name :: string
  GetChildren :: "event list \<Rightarrow> string \<Rightarrow> status \<times> string list"
  NewSequentialFile :: "event list \<Rightarrow> string \<Rightarrow> status \<times> log_record list"
  GetFileSize :: "event list \<Rightarrow> string \<Rightarrow> status \<times> u64"
  NewIterator :: "event list \<Rightarrow> string \<Rightarrow> u64 \<Rightarrow> u64 \<Rightarrow> string list \<times> status"
  NewWritableFile :: "event list \<Rightarrow> string \<Rightarrow> status"
  AddRecord :: "event list \<Rightarrow> string \<Rightarrow> VersionEdit \<Rightarrow> status"
  Close :: "event list \<Rightarrow> string \<Rightarrow> status"
  RenameFile :: "event list \<Rightarrow> string \<Rightarrow> string \<Rightarrow> status"
  DeleteFile :: "event list \<Rightarrow> string \<Rightarrow> status"
  CreateDir :: "event list \<Rightarrow> string \<Rightarrow> status"
  SetCurrentFile :: "event list \<Rightarrow> string \<Rightarrow> u64 \<Rightarrow> status"
  BuildTable :: "event list \<Rightarrow> string \<Rightarrow> u64 \<Rightarrow> WriteBatch list \<Rightarrow> status \<times> u64"
  SanitizeOptions_table_cache :: "event list \<Rightarrow> string \<Rightarrow> bool"

text \<open>
  What C++ leaves undefined, or stops the process for, is a fault of the model: an index
  outside a vector, a failed \<open>assert\<close>, a call through a null pointer.
\<close>

datatype fault = OutOfBounds | AssertionFailed | NullPointer

subsection \<open>The per-LG repairer\<close>

record Repairer =
  dbname' :: string
  edit' :: VersionEdit
  manifests' :: "string list"
  table_numbers' :: "u64 list"
  logs' :: "u64 list"
  tables' :: "TableInfo list"
  next_file_number' :: u64
  mem' :: "WriteBatch list option"
  max_sequence' :: u64

text \<open>
  The members as the initialisers of the constructor leave them:
  \<open>next_file_number_(1), mem_(NULL), max_sequence_(0)\<close>, the containers empty.
\<close>

definition new_Repairer :: "string \<Rightarrow> Repairer" where
  "new_Repairer dbname =
     \<lparr>dbname' = dbname, edit' = empty_edit, manifests' = [], table_numbers' = [],
      logs' = [], tables' = [], next_file_number' = 1, mem' = None, max_sequence' = 0\<rparr>"

text \<open>
  The constructor \<open>Repairer::Repairer\<close> with what it does to the outside: it calls
  \<open>SanitizeOptions\<close>, and when the sanitized options carry no table cache
  (\<open>owns_table_cache_\<close>) it logs that it creates one.
\<close>

definition construct_Repairer :: "externals \<Rightarrow> string \<Rightarrow> event list \<Rightarrow> event list \<times> Repairer" where
  "construct_Repairer X dbname h =
     (let owns_table_cache = \<not> SanitizeOptions_table_cache X h dbname;
          h1 = h @ [ESanitizeOptions dbname]
      in (if owns_table_cache then h1 @ [ELog (LogCreateTableCache dbname)] else h1,
          new_Repairer dbname))"

text \<open>
  \<open>ArchiveFile\<close>: the part of the name before the last slash (nothing when there is no
  slash), then \<open>/lost\<close>, then a slash and the part after the last slash.
\<close>

definition has_slash :: "string \<Rightarrow> bool" where
  "has_slash fname = (CHR ''/'' \<in> set fname)"

definition before_slash :: "string \<Rightarrow> string" where
  "before_slash fname = rev (tl (dropWhile (\<lambda>c. c \<noteq> CHR ''/'') (rev fname)))"

definition after_slash :: "string \<Rightarrow> string" where
  "after_slash fname = rev (takeWhile (\<lambda>c. c \<noteq> CHR ''/'') (rev fname))"

definition lost_dir :: "string \<Rightarrow> string" where
  "lost_dir fname = (if has_slash fname then before_slash fname else []) @ ''/lost''"

definition lost_file :: "string \<Rightarrow> string" where
  "lost_file fname = lost_dir fname @ ''/'' @ after_slash fname"

definition ArchiveFile :: "externals \<Rightarrow> string \<Rightarrow> string \<Rightarrow> event list \<Rightarrow> event list" where
  "ArchiveFile X dbname fname h =
     (let h1 = h @ [ECreateDir (lost_dir fname)];
          h2 = h1 @ [ERenameFile fname (lost_file fname)];
          s = RenameFile X h1 fname (lost_file fname)
      in h2 @ [ELog (LogArchiving dbname fname s)])"

text \<open>
  The loop of \<open>ScanTable\<close> over the keys of the iterator. The state is the trace, the
  counter, the flag \<open>empty\<close> and the table info. The counter is only logged; it is an
  unbounded integer here, where the \<open>int\<close> of the source overflows beyond \<open>2^31 - 1\<close>
  keys.
\<close>

fun scan_keys :: "externals \<Rightarrow> string \<Rightarrow> string list \<Rightarrow>
    event list \<times> int \<times> bool \<times> TableInfo \<Rightarrow> event list \<times> int \<times> bool \<times> TableInfo" where
  "scan_keys X dbname [] st = st"
| "scan_keys X dbname (key # keys) (h, counter, empty_flag, t) =
     (case ParseInternalKey X key of
        None \<Rightarrow>
          scan_keys X dbname keys
            (h @ [ELog (LogUnparsableKey dbname (number (meta t)) key)], counter, empty_flag, t)
      | Some parsed \<Rightarrow>
          (let t1 = (if empty_flag then t\<lparr>meta := (meta t)\<lparr>smallest := key\<rparr>\<rparr> else t);
               t2 = t1\<lparr>meta := (meta t1)\<lparr>largest := key\<rparr>\<rparr>;
               t3 = (if sequence parsed > max_sequence t2
                     then t2\<lparr>max_sequence := sequence parsed\<rparr> else t2)
           in scan_keys X dbname keys (h, counter + 1, False, t3)))"

definition ScanTable :: "externals \<Rightarrow> string \<Rightarrow> TableInfo \<Rightarrow> event list \<Rightarrow>
    status \<times> event list \<times> TableInfo" where
  "ScanTable X dbname t h =
     (let fname = TableFileName X dbname (number (meta t));
          (status, sz) = GetFileSize X h fname;
          h1 = h @ [EGetFileSize fname];
          t1 = t\<lparr>meta := (meta t)\<lparr>file_size := sz\<rparr>\<rparr>
      in if ok status then
           (let (keys, iter_status) = NewIterator X h1 dbname (number (meta t1)) (file_size (meta t1));
                h2 = h1 @ [ENewIterator dbname (number (meta t1)) (file_size (meta t1))];
                (h3, counter, empty_flag, t2) =
                   scan_keys X dbname keys (h2, 0, True, t1\<lparr>max_sequence := 0\<rparr>);
                status1 = (if \<not> ok iter_status then iter_status else status);
                status2 = (if ok status1 \<and> empty_flag then Corruption ''sst is empty'' [] else status1)
            in (status2, h3 @ [ELog (LogTableEntries dbname (number (meta t2)) counter status2)], t2))
         else (status, h1 @ [ELog (LogTableEntries dbname (number (meta t1)) 0 status)], t1))"

text \<open>
  The \<open>TableInfo\<close> that \<open>ExtractMetaData\<close> and \<open>AddTableMeta\<close> start from: only the number
  is set (the size is 0 and the keys are empty by the constructors; \<open>max_sequence\<close> is
  not initialised in the source and is written before it is read).
\<close>

definition fresh_TableInfo :: "u64 \<Rightarrow> TableInfo" where
  "fresh_TableInfo n =
     \<lparr>meta = \<lparr>number = n, file_size = 0, smallest = [], largest = []\<rparr>, max_sequence = 0\<rparr>"

text \<open>The body of the loop of \<open>Repairer::ExtractMetaData\<close>, for one table number.\<close>

definition ExtractMetaData_table :: "externals \<Rightarrow> event list \<times> Repairer \<Rightarrow> u64 \<Rightarrow>
    event list \<times> Repairer" where
  "ExtractMetaData_table X st n =
     (let (h, r) = st;
          (status, h1, t) = ScanTable X (dbname' r) (fresh_TableInfo n) h
      in if \<not> ok status then
           (let fname = TableFileName X (dbname' r) n;
                h2 = h1 @ [ELog (LogTableIgnoring (dbname' r) n status)]
            in (ArchiveFile X (dbname' r) fname h2, r))
         else
           (let r1 = r\<lparr>tables' := tables' r @ [t]\<rparr>
            in (h1, if max_sequence t > max_sequence' r1
                    then r1\<lparr>max_sequence' := max_sequence t\<rparr> else r1)))"

definition ExtractMetaData :: "externals \<Rightarrow> event list \<times> Repairer \<Rightarrow> event list \<times> Repairer" where
  "ExtractMetaData X st = foldl (ExtractMetaData_table X) st (table_numbers' (snd st))"

text \<open>
  \<open>Repairer::FindFiles\<close>. The body of its loop, for one name of the directory: a
  descriptor is remembered for archival; any other name that parses raises
  \<open>next_file_number_\<close> (in 64-bit arithmetic) and is filed as a log or a table.
\<close>

definition FindFiles_name :: "externals \<Rightarrow> Repairer \<Rightarrow> string \<Rightarrow> Repairer" where
  "FindFiles_name X r name =
     (case ParseFileName X name of
        None \<Rightarrow> r
      | Some (n, type) \<Rightarrow>
          if type = kDescriptorFile then r\<lparr>manifests' := manifests' r @ [name]\<rparr>
          else
            (let r1 = (if n + 1 > next_file_number' r then r\<lparr>next_file_number' := n + 1\<rparr> else r)
             in if type = kLogFile then r1\<lparr>logs' := logs' r1 @ [n]\<rparr>
                else if type = kTableFile
                then r1\<lparr>table_numbers' := table_numbers' r1 @ [BuildFullFileNumber X (dbname' r1) n]\<rparr>
                else r1))"

definition FindFiles :: "externals \<Rightarrow> event list \<times> Repairer \<Rightarrow> status \<times> event list \<times> Repairer" where
  "FindFiles X st =
     (let (h, r) = st;
          (status, filenames) = GetChildren X h (dbname' r);
          h1 = h @ [EGetChildren (dbname' r)]
      in if \<not> ok status then (status, h1, r)
         else if filenames = [] then (IOError (dbname' r) ''repair found no files'', h1, r)
         else (status, h1, foldl (FindFiles_name X) r filenames))"

text \<open>
  \<open>InsertMemTable\<close>: the memtable is created on first use; the assertion
  \<open>batch_seq > max_sequence_\<close> is checked; \<open>max_sequence_\<close> becomes
  \<open>batch_seq + Count(batch) - 1\<close> in 64-bit arithmetic. The memtable is the list of the
  batches given to \<open>InsertInto\<close>.
\<close>

definition InsertMemTable :: "externals \<Rightarrow> WriteBatch \<Rightarrow> u64 \<Rightarrow> event list \<times> Repairer \<Rightarrow>
    fault + (status \<times> event list \<times> Repairer)" where
  "InsertMemTable X batch batch_seq st =
     (let (h, r) = st;
          m = (case mem' r of None \<Rightarrow> [] | Some m \<Rightarrow> m)
      in if \<not> (batch_seq > max_sequence' r) then Inl AssertionFailed
         else Inr (InsertInto X batch, h @ [EInsertInto (dbname' r) batch],
                   r\<lparr>mem' := Some (m @ [batch]), max_sequence' := batch_seq + Count batch - 1\<rparr>))"

definition HasMemTable :: "Repairer \<Rightarrow> bool" where
  "HasMemTable r = (mem' r \<noteq> None)"

text \<open>
  \<open>BuildTableFile\<close>: the new table takes the next file number; the builder answers with a
  status and the size of the file; the memtable is released; the number joins
  \<open>table_numbers_\<close> when the build succeeded with a file that is not empty.
\<close>

definition BuildTableFile :: "externals \<Rightarrow> u64 \<Rightarrow> u32 \<Rightarrow> event list \<times> Repairer \<Rightarrow>
    fault + (status \<times> u64 \<times> event list \<times> Repairer)" where
  "BuildTableFile X log lg_id st =
     (let (h, r) = st;
          n = next_file_number' r;
          r1 = r\<lparr>next_file_number' := n + 1\<rparr>
      in case mem' r1 of
           None \<Rightarrow> Inl NullPointer
         | Some m \<Rightarrow>
             (let (status, sz) = BuildTable X h (dbname' r1) n m;
                  h1 = h @ [EBuildTable (dbname' r1) n m];
                  r2 = r1\<lparr>mem' := None\<rparr>;
                  r3 = (if ok status \<and> sz > 0
                        then r2\<lparr>table_numbers' := table_numbers' r2 @ [n]\<rparr> else r2)
              in Inr (status, n,
                      h1 @ [ELog (LogSavedToTable (dbname' r1) lg_id log n status)], r3)))"

definition AddTableMeta :: "externals \<Rightarrow> u64 \<Rightarrow> event list \<times> Repairer \<Rightarrow>
    status \<times> event list \<times> Repairer" where
  "AddTableMeta X table_number st =
     (let (h, r) = st;
          (status, h1, t) = ScanTable X (dbname' r) (fresh_TableInfo table_number) h
      in if \<not> ok status then
           (let fname = TableFileName X (dbname' r) table_number;
                h2 = h1 @ [ELog (LogTableIgnoring (dbname' r) table_number status)]
            in (status, ArchiveFile X (dbname' r) fname h2, r))
         else (status, h1, r\<lparr>tables' := tables' r @ [t],
                               table_numbers' := table_numbers' r @ [table_number]\<rparr>))"

text \<open>
  \<open>Repairer::WriteDescriptor\<close>. The edit is filled from the tables, written as one record
  to the temporary file, and the file closed; on success the old manifests are archived,
  the temporary file renamed to descriptor 1 and CURRENT set.
\<close>

definition descriptor_max_sequence :: "TableInfo list \<Rightarrow> u64" where
  "descriptor_max_sequence ts =
     fold (\<lambda>t m. if m < max_sequence t then max_sequence t else m) ts 0"

definition descriptor_edit :: "externals \<Rightarrow> Repairer \<Rightarrow> VersionEdit" where
  "descriptor_edit X r =
     fold (\<lambda>t e. AddFile 0 (number (meta t)) (file_size (meta t))
                    (smallest (meta t)) (largest (meta t)) e)
       (tables' r)
       (SetLastSequence (descriptor_max_sequence (tables' r))
         (SetNextFile (next_file_number' r)
           (SetLogNumber 0
             (SetComparatorName (comparator_Name X) (edit' r)))))"

definition archive_manifests :: "externals \<Rightarrow> string \<Rightarrow> string list \<Rightarrow> event list \<Rightarrow> event list" where
  "archive_manifests X dbname ms h =
     foldl (\<lambda>h m. ArchiveFile X dbname (dbname @ ''/'' @ m) h) h ms"

definition WriteDescriptor :: "externals \<Rightarrow> event list \<times> Repairer \<Rightarrow>
    status \<times> event list \<times> Repairer" where
  "WriteDescriptor X st =
     (let (h, r) = st;
          tmp = TempFileName X (dbname' r) 1;
          status = NewWritableFile X h tmp;
          h1 = h @ [ENewWritableFile tmp]
      in if \<not> ok status then (status, h1, r)
         else
           (let e = descriptor_edit X r;
                r1 = r\<lparr>edit' := e\<rparr>;
                status1 = AddRecord X h1 tmp e;
                h2 = h1 @ [EAddRecord tmp e];
                (status2, h3) = (if ok status1 then (Close X h2 tmp, h2 @ [EClose tmp])
                                 else (status1, h2))
            in if \<not> ok status2 then (status2, h3 @ [EDeleteFile tmp], r1)
               else
                 (let h4 = archive_manifests X (dbname' r1) (manifests' r1) h3;
                      dst = DescriptorFileName X (dbname' r1) 1;
                      status3 = RenameFile X h4 tmp dst;
                      h5 = h4 @ [ERenameFile tmp dst]
                  in if ok status3
                     then (SetCurrentFile X h5 (dbname' r1) 1,
                           h5 @ [ESetCurrentFile (dbname' r1) 1], r1)
                     else (status3, h5 @ [EDeleteFile tmp], r1))))"

subsection \<open>The coordinator\<close>

text \<open>
  \<open>exist_lg_list\<close> is a \<open>std::set<uint32_t>\<close>: here the list of its elements in the order
  of iteration, ascending and without repetition. \<open>repairers\<close> is a vector; reading or
  writing it at an index that is not below its size is the fault \<open>OutOfBounds\<close>.
\<close>

record DBRepairer =
  repairers :: "Repairer list"
  db_dbname' :: string
  exist_lg_list :: "u32 list"
  log_number' :: u64
  logfiles' :: "u64 list"
  last_sequence' :: u64

definition bind_fault :: "fault + 'a \<Rightarrow> ('a \<Rightarrow> fault + 'b) \<Rightarrow> fault + 'b" where
  "bind_fault m f = (case m of Inl e \<Rightarrow> Inl e | Inr x \<Rightarrow> f x)"

fun fold_fault :: "('a \<Rightarrow> 's \<Rightarrow> fault + 's) \<Rightarrow> 'a list \<Rightarrow> 's \<Rightarrow> fault + 's" where
  "fold_fault f [] s = Inr s"
| "fold_fault f (x # xs) s = bind_fault (f x s) (fold_fault f xs)"

definition at_index :: "'a list \<Rightarrow> nat \<Rightarrow> fault + 'a" where
  "at_index xs i = (if i < length xs then Inr (xs ! i) else Inl OutOfBounds)"

text \<open>
  \<open>InitDefaultOptions\<close> creates the directory and asserts that this succeeded; without a
  list of LGs the list is \<open>{0}\<close>. The constructor then constructs one repairer for each
  element, in the order of the list, and appends it to \<open>repairers\<close>.
\<close>

definition InitDefaultOptions :: "externals \<Rightarrow> u32 list option \<Rightarrow> string \<Rightarrow> event list \<Rightarrow>
    fault + (u32 list \<times> event list)" where
  "InitDefaultOptions X lgs dbname h =
     (let s = CreateDir X h dbname;
          h1 = h @ [ECreateDir dbname]
      in if \<not> ok s then Inl AssertionFailed
         else Inr (case lgs of None \<Rightarrow> [0] | Some l \<Rightarrow> sort (remdups l), h1))"

fun construct_repairers :: "externals \<Rightarrow> string \<Rightarrow> u32 list \<Rightarrow> event list \<times> Repairer list \<Rightarrow>
    event list \<times> Repairer list" where
  "construct_repairers X dbname [] st = st"
| "construct_repairers X dbname (lg # lgs) (h, rs) =
     (let (h1, r) = construct_Repairer X (dbname @ ''/'' @ Uint64ToString X (ucast lg)) h
      in construct_repairers X dbname lgs (h1, rs @ [r]))"

definition new_DBRepairer :: "externals \<Rightarrow> string \<Rightarrow> u32 list option \<Rightarrow> event list \<Rightarrow>
    fault + (event list \<times> DBRepairer)" where
  "new_DBRepairer X dbname lgs h =
     bind_fault (InitDefaultOptions X lgs dbname h) (\<lambda>(ids, h1).
       let (h2, rs) = construct_repairers X dbname ids (h1, [])
       in Inr (h2,
            \<lparr>repairers = rs, db_dbname' = dbname, exist_lg_list = ids, log_number' = 0,
             logfiles' = [], last_sequence' = 0\<rparr>))"

text \<open>The destructor deletes \<open>repairers[*it]\<close> for each element \<open>*it\<close> of the list.\<close>

definition delete_DBRepairer :: "DBRepairer \<Rightarrow> fault + unit" where
  "delete_DBRepairer d =
     fold_fault (\<lambda>lg u. bind_fault (at_index (repairers d) (unat lg)) (\<lambda>r. Inr ()))
       (exist_lg_list d) ()"

text \<open>\<open>DBRepairer::FindFiles\<close>: the logs of the root directory, then each LG's own files.\<close>

definition DB_FindFiles_name :: "externals \<Rightarrow> DBRepairer \<Rightarrow> string \<Rightarrow> DBRepairer" where
  "DB_FindFiles_name X d name =
     (case ParseFileName X name of
        None \<Rightarrow> d
      | Some (n, type) \<Rightarrow>
          if type = kLogFile then
            (let d1 = d\<lparr>logfiles' := logfiles' d @ [n]\<rparr>
             in if n + 1 > log_number' d1 then d1\<lparr>log_number' := n + 1\<rparr> else d1)
          else d)"

definition DB_FindFiles_lg :: "externals \<Rightarrow> u32 \<Rightarrow> event list \<times> DBRepairer \<Rightarrow>
    fault + (event list \<times> DBRepairer)" where
  "DB_FindFiles_lg X lg st =
     (let (h, d) = st
      in bind_fault (at_index (repairers d) (unat lg)) (\<lambda>r.
           let (s, h1, r1) = FindFiles X (h, r)
           in Inr (h1, d\<lparr>repairers := (repairers d)[unat lg := r1]\<rparr>)))"

definition DB_FindFiles :: "externals \<Rightarrow> event list \<times> DBRepairer \<Rightarrow>
    fault + (status \<times> event list \<times> DBRepairer)" where
  "DB_FindFiles X st =
     (let (h, d) = st;
          (status, filenames) = GetChildren X h (db_dbname' d);
          h1 = h @ [EGetChildren (db_dbname' d)]
      in if \<not> ok status then Inr (status, h1, d)
         else if filenames = [] then Inr (IOError (db_dbname' d) ''repair found no files'', h1, d)
         else
           (let d1 = foldl (DB_FindFiles_name X) d filenames
            in bind_fault (fold_fault (DB_FindFiles_lg X) (exist_lg_list d1) (h1, d1))
                 (\<lambda>(h2, d2). Inr (status, h2, d2))))"

text \<open>\<open>DBRepairer::ExtractMetaData\<close>.\<close>

definition DB_ExtractMetaData_lg :: "externals \<Rightarrow> u32 \<Rightarrow> event list \<times> DBRepairer \<Rightarrow>
    fault + (event list \<times> DBRepairer)" where
  "DB_ExtractMetaData_lg X lg st =
     (let (h, d) = st
      in bind_fault (at_index (repairers d) (unat lg)) (\<lambda>r.
           let (h1, r1) = ExtractMetaData X (h, r);
               d1 = d\<lparr>repairers := (repairers d)[unat lg := r1]\<rparr>
           in Inr (h1, if last_sequence' d1 < max_sequence' r1
                       then d1\<lparr>last_sequence' := max_sequence' r1\<rparr> else d1)))"

definition DB_ExtractMetaData :: "externals \<Rightarrow> event list \<times> DBRepairer \<Rightarrow>
    fault + (event list \<times> DBRepairer)" where
  "DB_ExtractMetaData X st = fold_fault (DB_ExtractMetaData_lg X) (exist_lg_list (snd st)) st"

text \<open>
  \<open>DBRepairer::ConvertLogToTable\<close>, first the loop over the records of the log. One
  record is skipped (too small, or a duplicate), or makes the function return (the
  separation failed), or is given to the memtables. \<open>lg_batchs\<close> has one slot for each
  element of \<open>exist_lg_list\<close>; \<open>SeperateLocalityGroup\<close> answers with a status and the
  vector as it leaves it. The counter of the source is only logged; it is an unbounded
  integer here (the \<open>int32_t\<close> of the source overflows beyond \<open>2^31 - 1\<close>), to which
  the count of a batch is added as the \<open>int\<close> that \<open>WriteBatchInternal::Count\<close> returns.
\<close>

definition stamp_batches :: "u64 \<Rightarrow> nat \<Rightarrow> WriteBatch option list \<Rightarrow> fault + WriteBatch option list" where
  "stamp_batches batch_seq n bs =
     (if length bs < n then Inl OutOfBounds
      else Inr (map (map_option (\<lambda>b. b\<lparr>Sequence := batch_seq\<rparr>)) (take n bs) @ drop n bs))"

fun insert_batches :: "externals \<Rightarrow> u64 \<Rightarrow> u64 \<Rightarrow> nat \<Rightarrow> WriteBatch option list \<Rightarrow>
    event list \<times> int \<times> DBRepairer \<Rightarrow> fault + (event list \<times> int \<times> DBRepairer)" where
  "insert_batches X log batch_seq i [] st = Inr st"
| "insert_batches X log batch_seq i (None # bs) st = insert_batches X log batch_seq (Suc i) bs st"
| "insert_batches X log batch_seq i (Some b # bs) (h, counter, d) =
     bind_fault (at_index (repairers d) i) (\<lambda>r.
       bind_fault (InsertMemTable X b batch_seq (h, r)) (\<lambda>(status, h1, r1).
         let d1 = d\<lparr>repairers := (repairers d)[i := r1]\<rparr>
         in if \<not> ok status
            then insert_batches X log batch_seq (Suc i) bs
                   (h1 @ [ELog (LogInsertIgnoring (db_dbname' d) i log status)], counter, d1)
            else insert_batches X log batch_seq (Suc i) bs
                   (h1, counter + sint (ucast (Count b) :: u32), d1)))"

definition replay_record :: "externals \<Rightarrow> u64 \<Rightarrow> log_record \<Rightarrow>
    event list \<times> int \<times> DBRepairer \<Rightarrow>
    fault + (status option \<times> event list \<times> int \<times> DBRepairer)" where
  "replay_record X log rcd st =
     (let (h, counter, d) = st
      in if rec_size rcd < 12 then
           Inr (None, h @ [ELog (LogDroppingBytes log (rec_size rcd)
                                   (Corruption ''log record too small'' []))], counter, d)
         else
           (let batch = rec_batch rcd;
                batch_seq = Sequence batch;
                batch_count = Count batch
            in if batch_seq \<le> last_sequence' d then
                 Inr (None, h @ [ELog (LogDuplicateRecord (db_dbname' d) batch_seq
                                         (batch_seq + batch_count - 1))], counter, d)
               else
                 (let n = length (exist_lg_list d)
                  in if n > 1 then
                       (let (status, bs) = SeperateLocalityGroup X batch n
                        in if \<not> ok status then Inr (Some status, h, counter, d)
                           else
                             bind_fault (stamp_batches batch_seq n bs) (\<lambda>lg_batchs.
                               bind_fault (insert_batches X log batch_seq 0 lg_batchs (h, counter, d))
                                 (\<lambda>(h1, counter1, d1).
                                    Inr (None, h1, counter1,
                                         d1\<lparr>last_sequence' := batch_seq + batch_count - 1\<rparr>))))
                     else if n = 0 then Inl OutOfBounds
                     else
                       bind_fault (insert_batches X log batch_seq 0 [Some batch] (h, counter, d))
                         (\<lambda>(h1, counter1, d1).
                            Inr (None, h1, counter1,
                                 d1\<lparr>last_sequence' := batch_seq + batch_count - 1\<rparr>)))))"

fun replay_records :: "externals \<Rightarrow> u64 \<Rightarrow> log_record list \<Rightarrow>
    event list \<times> int \<times> DBRepairer \<Rightarrow>
    fault + (status option \<times> event list \<times> int \<times> DBRepairer)" where
  "replay_records X log [] st = Inr (None, st)"
| "replay_records X log (rcd # rcds) st =
     bind_fault (replay_record X log rcd st) (\<lambda>(ret, st1).
       case ret of
         Some status \<Rightarrow> Inr (Some status, st1)
       | None \<Rightarrow> replay_records X log rcds st1)"

text \<open>
  After the records, each LG that has a memtable writes it to a table and scans that
  table; a failure of either is logged and forgotten.
\<close>

definition flush_lg :: "externals \<Rightarrow> u64 \<Rightarrow> u32 \<Rightarrow> status \<times> event list \<times> DBRepairer \<Rightarrow>
    fault + (status \<times> event list \<times> DBRepairer)" where
  "flush_lg X log lg st =
     (let (status, h, d) = st
      in bind_fault (at_index (repairers d) (unat lg)) (\<lambda>r.
           if \<not> HasMemTable r then Inr (status, h, d)
           else
             bind_fault (BuildTableFile X log lg (h, r)) (\<lambda>(status1, file_num, h1, r1).
               if \<not> ok status1 then
                 Inr (OK, h1 @ [ELog (LogBuildLogFileIgnoring (db_dbname' d) lg log status1)],
                      d\<lparr>repairers := (repairers d)[unat lg := r1]\<rparr>)
               else
                 (let (status2, h2, r2) = AddTableMeta X file_num (h1, r1);
                      d2 = d\<lparr>repairers := (repairers d)[unat lg := r2]\<rparr>
                  in if \<not> ok status2 then
                       Inr (OK, h2 @ [ELog (LogAddTableMetaIgnoring (db_dbname' d) lg log status2)], d2)
                     else Inr (status2, h2, d2)))))"

definition ConvertLogToTable :: "externals \<Rightarrow> u64 \<Rightarrow> event list \<times> DBRepairer \<Rightarrow>
    fault + (status \<times> event list \<times> DBRepairer)" where
  "ConvertLogToTable X log st =
     (let (h, d) = st;
          logname = LogHexFileName X (db_dbname' d) log;
          (status, records) = NewSequentialFile X h logname;
          h1 = h @ [ENewSequentialFile logname]
      in if \<not> ok status then Inr (status, h1, d)
         else
           bind_fault (replay_records X log records (h1, 0, d)) (\<lambda>(ret, h2, counter, d2).
             case ret of
               Some status1 \<Rightarrow> Inr (status1, h2, d2)
             | None \<Rightarrow>
                 bind_fault (fold_fault (flush_lg X log) (exist_lg_list d2) (status, h2, d2))
                   (\<lambda>(status2, h3, d3).
                      Inr (status2,
                           h3 @ [ELog (LogLogToTable (db_dbname' d3) log counter status2)], d3))))"

text \<open>
  \<open>DBRepairer::ConvertLogFilesToTables\<close>: the logs in the order of \<open>logfiles_\<close>; each is
  archived afterwards, by the first repairer (\<open>repairers[0]\<close>).
\<close>

definition ConvertLogFilesToTables_log :: "externals \<Rightarrow> u64 \<Rightarrow> event list \<times> DBRepairer \<Rightarrow>
    fault + (event list \<times> DBRepairer)" where
  "ConvertLogFilesToTables_log X log st =
     (let logname = LogHexFileName X (db_dbname' (snd st)) log
      in bind_fault (ConvertLogToTable X log st) (\<lambda>(status, h1, d1).
           let h2 = (if \<not> ok status
                     then h1 @ [ELog (LogLogIgnoringConversionError (db_dbname' d1) log status)]
                     else h1)
           in bind_fault (at_index (repairers d1) 0) (\<lambda>r.
                Inr (ArchiveFile X (dbname' r) logname h2, d1))))"

definition ConvertLogFilesToTables :: "externals \<Rightarrow> event list \<times> DBRepairer \<Rightarrow>
    fault + (event list \<times> DBRepairer)" where
  "ConvertLogFilesToTables X st =
     fold_fault (ConvertLogFilesToTables_log X) (logfiles' (snd st)) st"

text \<open>\<open>DBRepairer::WriteDescriptor\<close>, \<open>DBRepairer::Run\<close> and \<open>RepairDB\<close>.\<close>

definition DB_WriteDescriptor_lg :: "externals \<Rightarrow> u32 \<Rightarrow> status \<times> event list \<times> DBRepairer \<Rightarrow>
    fault + (status \<times> event list \<times> DBRepairer)" where
  "DB_WriteDescriptor_lg X lg st =
     (let (status, h, d) = st
      in bind_fault (at_index (repairers d) (unat lg)) (\<lambda>r.
           let (s, h1, r1) = WriteDescriptor X (h, r);
               d1 = d\<lparr>repairers := (repairers d)[unat lg := r1]\<rparr>
           in if \<not> ok s
              then Inr (s, h1 @ [ELog (LogWriteDescriptorError (db_dbname' d) lg s)], d1)
              else Inr (status, h1, d1)))"

definition DB_WriteDescriptor :: "externals \<Rightarrow> event list \<times> DBRepairer \<Rightarrow>
    fault + (status \<times> event list \<times> DBRepairer)" where
  "DB_WriteDescriptor X st =
     fold_fault (DB_WriteDescriptor_lg X) (exist_lg_list (snd st)) (OK, fst st, snd st)"

definition Run :: "externals \<Rightarrow> event list \<times> DBRepairer \<Rightarrow>
    fault + (status \<times> event list \<times> DBRepairer)" where
  "Run X st =
     bind_fault (DB_FindFiles X st) (\<lambda>(status, h1, d1).
       if ok status then
         bind_fault (DB_ExtractMetaData X (h1, d1)) (\<lambda>st2.
           bind_fault (ConvertLogFilesToTables X st2) (\<lambda>st3.
             DB_WriteDescriptor X st3))
       else Inr (status, h1, d1))"

definition RepairDB :: "externals \<Rightarrow> string \<Rightarrow> u32 list option \<Rightarrow> fault + (status \<times> event list)" where
  "RepairDB X dbname lgs =
     bind_fault (new_DBRepairer X dbname lgs []) (\<lambda>st.
       bind_fault (Run X st) (\<lambda>(status, h1, d1).
         bind_fault (delete_DBRepairer d1) (\<lambda>u. Inr (status, h1))))"

subsection \<open>Notions the statements use\<close>

text \<open>The keys of an iterator that \<open>ParseInternalKey\<close> accepts, and those it rejects.\<close>

definition parseable :: "externals \<Rightarrow> string list \<Rightarrow> string list" where
  "parseable X keys = filter (\<lambda>k. ParseInternalKey X k \<noteq> None) keys"

definition unparsable :: "externals \<Rightarrow> string list \<Rightarrow> string list" where
  "unparsable X keys = filter (\<lambda>k. ParseInternalKey X k = None) keys"

definition key_sequence :: "externals \<Rightarrow> string \<Rightarrow> u64" where
  "key_sequence X k = (case ParseInternalKey X k of None \<Rightarrow> 0 | Some p \<Rightarrow> sequence p)"

text \<open>
  The events of the constructors of the per-LG repairers, and the directories for which
  \<open>SanitizeOptions\<close> was called, read off a trace.
\<close>

fun construction_event :: "event \<Rightarrow> bool" where
  "construction_event (ESanitizeOptions d) = True"
| "construction_event (ELog (LogCreateTableCache d)) = True"
| "construction_event _ = False"

fun sanitized :: "event \<Rightarrow> string option" where
  "sanitized (ESanitizeOptions d) = Some d"
| "sanitized _ = None"

subsection \<open>Concrete collaborators for the examples\<close>

text \<open>
  An environment in which every call succeeds, every directory, log and table is empty
  and the options carry no table cache; the examples change the answers they need.
\<close>

definition digit_name :: "u64 \<Rightarrow> string" where
  "digit_name n =
     (if n = 0 then ''0'' else if n = 1 then ''1'' else if n = 2 then ''2''
      else if n = 3 then ''3'' else if n = 4 then ''4'' else if n = 5 then ''5'' else ''n'')"

definition quiet :: externals where
  "quiet =
     \<lparr>ParseFileName = (\<lambda>name. None),
      BuildFullFileNumber = (\<lambda>dbname n. n),
      TableFileName = (\<lambda>dbname n. dbname @ ''/'' @ digit_name n @ ''.sst''),
      TempFileName = (\<lambda>dbname n. dbname @ ''/'' @ digit_name n @ ''.dbtmp''),
      DescriptorFileName = (\<lambda>dbname n. dbname @ ''/MANIFEST-'' @ digit_name n),
      LogHexFileName = (\<lambda>dbname n. dbname @ ''/'' @ digit_name n @ ''.log''),
      Uint64ToString = digit_name,
      ParseInternalKey = (\<lambda>key. None),
      SeperateLocalityGroup = (\<lambda>b n. (OK, replicate n None)),
      InsertInto = (\<lambda>b. OK),
      comparator_Name = ''leveldb.BytewiseComparator'',
      GetChildren = (\<lambda>h dir. (OK, [])),
      NewSequentialFile = (\<lambda>h name. (OK, [])),
      GetFileSize = (\<lambda>h name. (OK, 0)),
      NewIterator = (\<lambda>h dbname n sz. ([], OK)),
      NewWritableFile = (\<lambda>h name. OK),
      AddRecord = (\<lambda>h name e. OK),
      Close = (\<lambda>h name. OK),
      RenameFile = (\<lambda>h src dst. OK),
      DeleteFile = (\<lambda>h name. OK),
      CreateDir = (\<lambda>h name. OK),
      SetCurrentFile = (\<lambda>h dbname n. OK),
      BuildTable = (\<lambda>h dbname n mem. (OK, 0)),
      SanitizeOptions_table_cache = (\<lambda>h dbname. False)\<rparr>"

text \<open>
  A table whose iterator yields one key that does not parse and then the keys \<open>x\<close> at
  sequence 7 and \<open>y\<close> at sequence 9.
\<close>

definition parse_xy :: "string \<Rightarrow> ParsedInternalKey option" where
  "parse_xy key =
     (if key = ''x@7'' then Some \<lparr>user_key = ''x'', sequence = 7, key_type = 1\<rparr>
      else if key = ''y@9'' then Some \<lparr>user_key = ''y'', sequence = 9, key_type = 1\<rparr>
      else None)"

definition garbage_table :: externals where
  "garbage_table =
     quiet\<lparr>ParseInternalKey := parse_xy,
           GetFileSize := (\<lambda>h name. (OK, 100)),
           NewIterator := (\<lambda>h dbname n sz. ([''??'', ''x@7'', ''y@9''], OK))\<rparr>"

fun is_NotFound :: "status \<Rightarrow> bool" where
  "is_NotFound (NotFound a b) = True"
| "is_NotFound _ = False"

text \<open>
  Environments in which one step of the installation of a descriptor fails, and a
  repairer that found one old manifest.
\<close>

definition fail_create :: externals where
  "fail_create = quiet\<lparr>NewWritableFile := (\<lambda>h name. IOError name ''create'')\<rparr>"

definition fail_write :: externals where
  "fail_write = quiet\<lparr>AddRecord := (\<lambda>h name e. IOError name ''write'')\<rparr>"

definition fail_close :: externals where
  "fail_close = quiet\<lparr>Close := (\<lambda>h name. IOError name ''close'')\<rparr>"

definition fail_install :: externals where
  "fail_install =
     quiet\<lparr>RenameFile := (\<lambda>h src dst. if src = ''db/0/1.dbtmp'' then IOError src ''rename'' else OK)\<rparr>"

definition old_manifest :: Repairer where
  "old_manifest = (new_Repairer ''db/0'')\<lparr>manifests' := [''MANIFEST-5'']\<rparr>"





text \<open>A table whose iterator yields a single key, which does not parse.\<close>

definition garbage_only :: externals where
  "garbage_only = quiet\<lparr>NewIterator := (\<lambda>h dbname n sz. ([''??''], OK))\<rparr>"

text \<open>
  Reading a trace: the values that a selector picks from its events, in order; the
  errors that the coordinator logged for the descriptors of the LGs, the temporary files
  that were created, and the status that a list of logged errors leaves. Then an
  environment in which every directory holds one file of no interest and no descriptor
  can be created, with a different error for LG 0 than for the others, and a coordinator
  of two LGs.
\<close>

primrec pick :: "(event \<Rightarrow> 'a option) \<Rightarrow> event list \<Rightarrow> 'a list" where
  "pick f [] = []"
| "pick f (e # es) = (case f e of None \<Rightarrow> pick f es | Some x \<Rightarrow> x # pick f es)"

fun descriptor_error :: "event \<Rightarrow> (u32 \<times> status) option" where
  "descriptor_error (ELog (LogWriteDescriptorError d lg s)) = Some (lg, s)"
| "descriptor_error _ = None"

fun temp_created :: "event \<Rightarrow> string option" where
  "temp_created (ENewWritableFile name) = Some name"
| "temp_created _ = None"

definition last_error :: "status \<Rightarrow> (u32 \<times> status) list \<Rightarrow> status" where
  "last_error s0 errs = (if errs = [] then s0 else snd (last errs))"

text \<open>
  The statuses that the LGs of a list return when each is asked in turn to install its
  descriptor, every one of them whatever the others returned (the coordinator's log line
  for a failure is part of the trace that the later calls see); and the status that a
  list of statuses leaves when each failure overwrites what was there before.
\<close>

fun lg_descriptor_statuses :: "externals \<Rightarrow> string \<Rightarrow> u32 list \<Rightarrow> event list \<times> Repairer list \<Rightarrow>
    status list" where
  "lg_descriptor_statuses X db [] st = []"
| "lg_descriptor_statuses X db (lg # lgs) (h, rs) =
     (let (s, h1, r1) = WriteDescriptor X (h, rs ! unat lg);
          h2 = (if ok s then h1 else h1 @ [ELog (LogWriteDescriptorError db lg s)])
      in s # lg_descriptor_statuses X db lgs (h2, rs[unat lg := r1]))"

definition last_failure :: "status list \<Rightarrow> status" where
  "last_failure ss = (if filter (\<lambda>s. \<not> ok s) ss = [] then OK else last (filter (\<lambda>s. \<not> ok s) ss))"

definition two_failures :: externals where
  "two_failures =
     quiet\<lparr>GetChildren := (\<lambda>h dir. (OK, [''LOCK''])),
           NewWritableFile := (\<lambda>h name. if name = ''db/0/1.dbtmp'' then IOError name ''first''
                                           else Corruption name ''second'')\<rparr>"

definition two_lgs :: DBRepairer where
  "two_lgs =
     \<lparr>repairers = [new_Repairer ''db/0'', new_Repairer ''db/1''], db_dbname' = ''db'',
      exist_lg_list = [0, 1], log_number' = 0, logfiles' = [], last_sequence' = 0\<rparr>"

text \<open>
More readings of a trace: the batches given to the memtables, the duplicates that
  were logged, and the events that the loop over the sub-batches of one record can add.
  \<open>lg_batchs\<close> as the loop over the sub-batches finds it: the whole batch for a single
  LG, and otherwise the answer of \<open>SeperateLocalityGroup\<close> with the sequence of the record
  stamped on the batches of the first slots. \<open>frame\<close>: what the replay of a record does not
  touch. Then a coordinator of the single LG 0 whose tables reach sequence 100, and a
  record of a log with a given header.
\<close>

fun inserted :: "event \<Rightarrow> WriteBatch option" where
  "inserted (EInsertInto d b) = Some b"
| "inserted _ = None"

fun duplicate_logged :: "event \<Rightarrow> (u64 \<times> u64) option" where
  "duplicate_logged (ELog (LogDuplicateRecord d a b)) = Some (a, b)"
| "duplicate_logged _ = None"

fun insert_event :: "event \<Rightarrow> bool" where
  "insert_event (EInsertInto d b) = True"
| "insert_event (ELog (LogInsertIgnoring d i log s)) = True"
| "insert_event _ = False"

definition somes :: "'a option list \<Rightarrow> 'a list" where
  "somes xs = map the (filter (\<lambda>x. x \<noteq> None) xs)"

definition lg_batches :: "externals \<Rightarrow> nat \<Rightarrow> WriteBatch \<Rightarrow> WriteBatch option list" where
  "lg_batches X n b =
     (if n > 1
      then (let bs = snd (SeperateLocalityGroup X b n)
            in map (map_option (\<lambda>b'. b'\<lparr>Sequence := Sequence b\<rparr>)) (take n bs) @ drop n bs)
      else [Some b])"

definition frame :: "DBRepairer \<Rightarrow> DBRepairer \<Rightarrow> bool" where
  "frame d d' \<longleftrightarrow>
     last_sequence' d' = last_sequence' d \<and> exist_lg_list d' = exist_lg_list d \<and>
     db_dbname' d' = db_dbname' d \<and> logfiles' d' = logfiles' d \<and>
     log_number' d' = log_number' d \<and>
     map dbname' (repairers d') = map dbname' (repairers d)"

text \<open>
  The sub-batch in a slot of \<open>lg_batchs\<close> (none beyond its end); a repairer after one
  more batch has gone to its memtable; and the condition under which a record that is
  not a duplicate can be given to the memtables: there is an LG, the separation has
  filled a slot for every LG, and every slot that holds a sub-batch belongs to a repairer
  of the vector whose \<open>max_sequence_\<close> is below the sequence of the record.
\<close>

definition slot :: "'a option list \<Rightarrow> nat \<Rightarrow> 'a option" where
  "slot bs i = (if i < length bs then bs ! i else None)"

definition with_batch :: "WriteBatch \<Rightarrow> u64 \<Rightarrow> Repairer \<Rightarrow> Repairer" where
  "with_batch b batch_seq r =
     r\<lparr>mem' := Some ((case mem' r of None \<Rightarrow> [] | Some m \<Rightarrow> m) @ [b]),
       max_sequence' := batch_seq + Count b - 1\<rparr>"

definition slots_ready :: "externals \<Rightarrow> DBRepairer \<Rightarrow> WriteBatch \<Rightarrow> bool" where
  "slots_ready X d b \<longleftrightarrow>
     (let n = length (exist_lg_list d)
      in 0 < n \<and> (1 < n \<longrightarrow> n \<le> length (snd (SeperateLocalityGroup X b n))) \<and>
         (\<forall>i < length (lg_batches X n b). lg_batches X n b ! i \<noteq> None \<longrightarrow>
            i < length (repairers d) \<and> max_sequence' (repairers d ! i) < Sequence b))"

definition lg0_at_100 :: DBRepairer where
  "lg0_at_100 =
     \<lparr>repairers = [(new_Repairer ''db/0'')\<lparr>max_sequence' := 100\<rparr>], db_dbname' = ''db'',
      exist_lg_list = [0], log_number' = 6, logfiles' = [5], last_sequence' = 100\<rparr>"

definition batch_record :: "u64 \<Rightarrow> u64 \<Rightarrow> log_record" where
  "batch_record s n = \<lparr>rec_size = 30, rec_batch = \<lparr>Sequence = s, Count = n, payload = ''put''\<rparr>\<rparr>"

text \<open>
Two LGs without tables and one log of two records. The first record has the
  sequence \<open>2^64 - 2\<close> and the count 3, and separates into one mutation for LG 0 and two
  for LG 1; the second has the sequence 1 and one mutation, for LG 0. Then the state of
  the coordinator after the first record.
\<close>

definition wrapping_log :: externals where
  "wrapping_log =
     quiet\<lparr>GetChildren := (\<lambda>h dir. if dir = ''db'' then (OK, [''000005.log'']) else (OK, [''LOCK''])),
           ParseFileName := (\<lambda>name. if name = ''000005.log'' then Some (5, kLogFile) else None),
           NewSequentialFile :=
             (\<lambda>h name. (OK, [batch_record 18446744073709551614 3, batch_record 1 1])),
           SeperateLocalityGroup :=
             (\<lambda>b n. (OK, if Sequence b = 18446744073709551614
                           then [Some \<lparr>Sequence = 0, Count = 1, payload = ''k0''\<rparr>,
                                 Some \<lparr>Sequence = 0, Count = 2, payload = ''k1k2''\<rparr>]
                           else [Some \<lparr>Sequence = 0, Count = 1, payload = ''k3''\<rparr>, None]))\<rparr>"

definition after_wrap :: DBRepairer where
  "after_wrap =
     \<lparr>repairers =
        [(new_Repairer ''db/0'')
           \<lparr>mem' := Some [\<lparr>Sequence = 18446744073709551614, Count = 1, payload = ''k0''\<rparr>],
            max_sequence' := 18446744073709551614\<rparr>,
         (new_Repairer ''db/1'')
           \<lparr>mem' := Some [\<lparr>Sequence = 18446744073709551614, Count = 2, payload = ''k1k2''\<rparr>],
            max_sequence' := 18446744073709551615\<rparr>],
      db_dbname' = ''db'', exist_lg_list = [0, 1], log_number' = 6, logfiles' = [5],
      last_sequence' = 0\<rparr>"

text \<open>
A coordinator made for the LGs 0 and 5: two repairers, the second of which is never
  reached by its id.
\<close>

definition lgs_0_5 :: DBRepairer where
  "lgs_0_5 =
     \<lparr>repairers = [new_Repairer ''db/0'', new_Repairer ''db/5''], db_dbname' = ''db'',
      exist_lg_list = [0, 5], log_number' = 0, logfiles' = [], last_sequence' = 0\<rparr>"





definition single_lg :: DBRepairer where
  "single_lg =
     \<lparr>repairers = [new_Repairer ''db/0''], db_dbname' = ''db'', exist_lg_list = [0],
      log_number' = 0, logfiles' = [], last_sequence' = 0\<rparr>"











text \<open>
  How a repairer may differ from an earlier state of itself when its counter of file
  numbers has been raised at most \<open>k\<close> times by one: the edit and the name are the same.
  And the same for all repairers of a coordinator, with a bound for each index.
\<close>

definition grown :: "nat \<Rightarrow> Repairer \<Rightarrow> Repairer \<Rightarrow> bool" where
  "grown k r r' \<longleftrightarrow>
     (\<exists>m \<le> k. next_file_number' r' = next_file_number' r + of_nat m) \<and>
     edit' r' = edit' r \<and> dbname' r' = dbname' r"

definition all_grown :: "(nat \<Rightarrow> nat) \<Rightarrow> DBRepairer \<Rightarrow> DBRepairer \<Rightarrow> bool" where
  "all_grown f d d' \<longleftrightarrow>
     length (repairers d') = length (repairers d) \<and> exist_lg_list d' = exist_lg_list d \<and>
     logfiles' d' = logfiles' d \<and> db_dbname' d' = db_dbname' d \<and>
     (\<forall>j < length (repairers d). grown (f j) (repairers d ! j) (repairers d' ! j))"

section \<open>Properties\<close>

subsection \<open>The scan of a table\<close>

lemma ok_iff: "ok s \<longleftrightarrow> s = OK"
  by (cases s) simp_all

lemma scan_keys_number:
  "number (meta (snd (snd (snd (scan_keys X d keys (h, c, e, t)))))) = number (meta t)"
  by (induction keys arbitrary: h c e t) (auto split: option.splits simp: Let_def)

lemma scan_keys_file_size:
  "file_size (meta (snd (snd (snd (scan_keys X d keys (h, c, e, t)))))) = file_size (meta t)"
  by (induction keys arbitrary: h c e t) (auto split: option.splits simp: Let_def)

lemma scan_keys_trace:
  "fst (scan_keys X d keys (h, c, e, t)) =
     h @ map (\<lambda>k. ELog (LogUnparsableKey d (number (meta t)) k)) (unparsable X keys)"
  by (induction keys arbitrary: h c e t) (auto split: option.splits simp: Let_def unparsable_def)

lemma scan_keys_counter:
  "fst (snd (scan_keys X d keys (h, c, e, t))) = c + int (length (parseable X keys))"
  by (induction keys arbitrary: h c e t) (auto split: option.splits simp: Let_def parseable_def)

lemma scan_keys_empty:
  "fst (snd (snd (scan_keys X d keys (h, c, e, t)))) = (e \<and> parseable X keys = [])"
  by (induction keys arbitrary: h c e t) (auto split: option.splits simp: Let_def parseable_def)

lemma scan_keys_largest:
  "largest (meta (snd (snd (snd (scan_keys X d keys (h, c, e, t)))))) =
     (if parseable X keys = [] then largest (meta t) else last (parseable X keys))"
  by (induction keys arbitrary: h c e t) (auto split: option.splits simp: Let_def parseable_def)

lemma scan_keys_smallest:
  "smallest (meta (snd (snd (snd (scan_keys X d keys (h, c, e, t)))))) =
     (if e \<and> parseable X keys \<noteq> [] then hd (parseable X keys) else smallest (meta t))"
  by (induction keys arbitrary: h c e t) (auto split: option.splits simp: Let_def parseable_def)

lemma scan_keys_max_sequence_fold:
  "max_sequence (snd (snd (snd (scan_keys X d keys (h, c, e, t))))) =
     fold max (map (key_sequence X) (parseable X keys)) (max_sequence t)"
proof (induction keys arbitrary: h c e t)
  case Nil
  then show ?case by (simp add: parseable_def)
next
  case (Cons k keys)
  show ?case
  proof (cases "ParseInternalKey X k")
    case None
    then show ?thesis using Cons by (simp add: parseable_def)
  next
    case (Some p)
    then show ?thesis using Cons
      by (auto simp add: parseable_def Let_def key_sequence_def max_def not_less)
  qed
qed

lemma fold_max_zero:
  fixes xs :: "u64 list"
  assumes "xs \<noteq> []"
  shows "fold max xs 0 = Max (set xs)"
proof -
  have "fold max xs 0 = Max (set (0 # xs))"
    by (simp only: Max.set_eq_fold)
  also have "\<dots> = max 0 (Max (set xs))"
    using assms by simp
  also have "\<dots> = Max (set xs)"
    by (simp add: max_def)
  finally show ?thesis .
qed

lemma ScanTable_fail_size:
  assumes sz: "GetFileSize X h (TableFileName X d (number (meta t))) = (szs, sz)"
    and bad: "\<not> ok szs"
  shows "fst (ScanTable X d t h) = szs"
  using sz bad by (simp add: ScanTable_def Let_def)

lemma ScanTable_good:
  assumes sz: "GetFileSize X h (TableFileName X d (number (meta t))) = (szs, sz)"
    and it: "NewIterator X (h @ [EGetFileSize (TableFileName X d (number (meta t)))]) d
               (number (meta t)) sz = (keys, its)"
    and good: "ok szs"
  defines "r \<equiv> scan_keys X d keys
      (h @ [EGetFileSize (TableFileName X d (number (meta t))), ENewIterator d (number (meta t)) sz],
       0, True, t\<lparr>meta := (meta t)\<lparr>file_size := sz\<rparr>, max_sequence := 0\<rparr>)"
  defines "s \<equiv> (if \<not> ok its then its
                else if parseable X keys = [] then Corruption ''sst is empty'' [] else szs)"
  shows "ScanTable X d t h =
     (s, fst r @ [ELog (LogTableEntries d (number (meta t)) (int (length (parseable X keys))) s)],
      snd (snd (snd r)))"
  using sz it good unfolding r_def s_def
  by (simp add: ScanTable_def Let_def split_beta scan_keys_empty scan_keys_counter
          scan_keys_number)

text \<open>
  Claim C6. In a scan, a key that \<open>ParseInternalKey\<close> rejects is logged and skipped: it
  changes neither the status of the scan (which is OK exactly when the size was read, the
  iterator ended without error and some key parses) nor the table info. A successful
  scan leaves \<open>smallest\<close> the first parseable key, \<open>largest\<close> the last parseable key and
  \<open>max_sequence\<close> the maximum of the sequences of the parseable keys, and its trace has one
  log line for each unparsable key, in order.
\<close>

theorem ScanTable_parseable_keys:
  assumes sz: "GetFileSize X h (TableFileName X d (number (meta t))) = (szs, sz)"
    and it: "NewIterator X (h @ [EGetFileSize (TableFileName X d (number (meta t)))]) d
               (number (meta t)) sz = (keys, its)"
    and res: "ScanTable X d t h = (s, h', t')"
  shows "(ok s \<longleftrightarrow> ok szs \<and> ok its \<and> parseable X keys \<noteq> []) \<and>
    (ok s \<longrightarrow>
       smallest (meta t') = hd (parseable X keys) \<and>
       largest (meta t') = last (parseable X keys) \<and>
       max_sequence t' = Max (key_sequence X ` set (parseable X keys)) \<and>
       h' = h @ [EGetFileSize (TableFileName X d (number (meta t))),
                 ENewIterator d (number (meta t)) sz]
              @ map (\<lambda>k. ELog (LogUnparsableKey d (number (meta t)) k)) (unparsable X keys)
              @ [ELog (LogTableEntries d (number (meta t)) (int (length (parseable X keys))) OK)])"
proof (cases "ok szs")
  case False
  then have "s = szs"
    using ScanTable_fail_size [OF sz] res by simp
  with False show ?thesis by simp
next
  case True
  note g = ScanTable_good [OF sz it True]
  have s_eq: "s = (if \<not> ok its then its
                   else if parseable X keys = [] then Corruption ''sst is empty'' [] else szs)"
    using g res by simp
  have iff: "ok s \<longleftrightarrow> ok szs \<and> ok its \<and> parseable X keys \<noteq> []"
    using True by (simp add: s_eq)
  have rest: "smallest (meta t') = hd (parseable X keys) \<and>
       largest (meta t') = last (parseable X keys) \<and>
       max_sequence t' = Max (key_sequence X ` set (parseable X keys)) \<and>
       h' = h @ [EGetFileSize (TableFileName X d (number (meta t))),
                 ENewIterator d (number (meta t)) sz]
              @ map (\<lambda>k. ELog (LogUnparsableKey d (number (meta t)) k)) (unparsable X keys)
              @ [ELog (LogTableEntries d (number (meta t)) (int (length (parseable X keys))) OK)]"
    if oks: "ok s"
  proof -
    have ne: "parseable X keys \<noteq> []" and sOK: "s = OK"
      using oks iff by (simp_all add: ok_iff)
    have t': "t' = snd (snd (snd (scan_keys X d keys
      (h @ [EGetFileSize (TableFileName X d (number (meta t))), ENewIterator d (number (meta t)) sz],
       0, True, t\<lparr>meta := (meta t)\<lparr>file_size := sz\<rparr>, max_sequence := 0\<rparr>))))"
      using g res by simp
    have h': "h' = fst (scan_keys X d keys
      (h @ [EGetFileSize (TableFileName X d (number (meta t))), ENewIterator d (number (meta t)) sz],
       0, True, t\<lparr>meta := (meta t)\<lparr>file_size := sz\<rparr>, max_sequence := 0\<rparr>))
       @ [ELog (LogTableEntries d (number (meta t)) (int (length (parseable X keys))) s)]"
      using g res s_eq by simp
    have 1: "smallest (meta t') = hd (parseable X keys)"
      unfolding t' using ne by (simp add: scan_keys_smallest)
    have 2: "largest (meta t') = last (parseable X keys)"
      unfolding t' using ne by (simp add: scan_keys_largest)
    have 3: "max_sequence t' = Max (key_sequence X ` set (parseable X keys))"
      unfolding t' using ne by (simp add: scan_keys_max_sequence_fold fold_max_zero)
    have 4: "h' = h @ [EGetFileSize (TableFileName X d (number (meta t))),
                 ENewIterator d (number (meta t)) sz]
              @ map (\<lambda>k. ELog (LogUnparsableKey d (number (meta t)) k)) (unparsable X keys)
              @ [ELog (LogTableEntries d (number (meta t)) (int (length (parseable X keys))) OK)]"
      unfolding h' sOK by (simp add: scan_keys_trace)
    show ?thesis using 1 2 3 4 by blast
  qed
  show ?thesis using iff rest by blast
qed

theorem ScanTable_parseable_keys_witness:
  "ScanTable garbage_table ''db/0'' (fresh_TableInfo 1) [] =
     (OK,
      [EGetFileSize ''db/0/1.sst'', ENewIterator ''db/0'' 1 100,
       ELog (LogUnparsableKey ''db/0'' 1 ''??''), ELog (LogTableEntries ''db/0'' 1 2 OK)],
      \<lparr>meta = \<lparr>number = 1, file_size = 100, smallest = ''x@7'', largest = ''y@9''\<rparr>,
       max_sequence = 9\<rparr>)
   \<and> parseable garbage_table [''??'', ''x@7'', ''y@9''] = [''x@7'', ''y@9'']
   \<and> Max (key_sequence garbage_table ` set (parseable garbage_table [''??'', ''x@7'', ''y@9''])) = 9"
proof -
  have run: "ScanTable garbage_table ''db/0'' (fresh_TableInfo 1) [] =
     (OK,
      [EGetFileSize ''db/0/1.sst'', ENewIterator ''db/0'' 1 100,
       ELog (LogUnparsableKey ''db/0'' 1 ''??''), ELog (LogTableEntries ''db/0'' 1 2 OK)],
      \<lparr>meta = \<lparr>number = 1, file_size = 100, smallest = ''x@7'', largest = ''y@9''\<rparr>,
       max_sequence = 9\<rparr>)"
    by (simp add: ScanTable_def garbage_table_def quiet_def parse_xy_def fresh_TableInfo_def
          digit_name_def Let_def)
  have p: "parseable garbage_table [''??'', ''x@7'', ''y@9''] = [''x@7'', ''y@9'']"
    by (simp add: parseable_def garbage_table_def quiet_def parse_xy_def)
  have sz: "GetFileSize garbage_table [] (TableFileName garbage_table ''db/0''
              (number (meta (fresh_TableInfo 1)))) = (OK, 100)"
    by (simp add: garbage_table_def quiet_def)
  have it: "NewIterator garbage_table ([] @ [EGetFileSize (TableFileName garbage_table ''db/0''
              (number (meta (fresh_TableInfo 1))))]) ''db/0'' (number (meta (fresh_TableInfo 1))) 100
            = ([''??'', ''x@7'', ''y@9''], OK)"
    by (simp add: garbage_table_def quiet_def)
  from ScanTable_parseable_keys [OF sz it run] p run show ?thesis
    by simp
qed

subsection \<open>The fault monad\<close>

lemma bind_fault_Inr [simp]: "bind_fault (Inr x) f = f x"
  by (simp add: bind_fault_def)

lemma bind_fault_Inl [simp]: "bind_fault (Inl e) f = Inl e"
  by (simp add: bind_fault_def)

lemma pick_append [simp]: "pick f (xs @ ys) = pick f xs @ pick f ys"
  by (induction xs) (auto split: option.splits)

lemma fold_fault_out_of_bounds:
  assumes step: "\<And>lg s. lg \<in> set ids \<Longrightarrow>
        (sz s \<le> unat lg \<longrightarrow> f lg s = Inl OutOfBounds) \<and>
        (unat lg < sz s \<longrightarrow> (\<exists>s'. f lg s = Inr s' \<and> sz s' = sz s))"
    and bad: "\<exists>lg \<in> set ids. sz s \<le> unat lg"
  shows "fold_fault f ids s = Inl OutOfBounds"
  using step bad
proof (induction ids arbitrary: s)
  case Nil
  then show ?case by simp
next
  case (Cons lg ids)
  show ?case
  proof (cases "sz s \<le> unat lg")
    case True
    then show ?thesis using Cons.prems(1) [of lg s] by simp
  next
    case False
    then obtain s' where s': "f lg s = Inr s'" "sz s' = sz s"
      using Cons.prems(1) [of lg s] by auto
    have "\<exists>lg \<in> set ids. sz s' \<le> unat lg"
      using Cons.prems(2) False s' by auto
    then have "fold_fault f ids s' = Inl OutOfBounds"
      using Cons.IH [of s'] Cons.prems(1) by simp
    then show ?thesis using s' by simp
  qed
qed

lemma fold_fault_in_bounds:
  assumes step: "\<And>lg s. lg \<in> set ids \<Longrightarrow> unat lg < sz s \<Longrightarrow> (\<exists>s'. f lg s = Inr s' \<and> sz s' = sz s)"
    and good: "\<forall>lg \<in> set ids. unat lg < sz s"
  shows "\<exists>s'. fold_fault f ids s = Inr s' \<and> sz s' = sz s"
  using step good
proof (induction ids arbitrary: s)
  case Nil
  then show ?case by simp
next
  case (Cons lg ids)
  obtain s' where s': "f lg s = Inr s'" "sz s' = sz s"
    using Cons.prems(1) [of lg s] Cons.prems(2) by auto
  have "\<exists>s''. fold_fault f ids s' = Inr s'' \<and> sz s'' = sz s'"
    using Cons.IH [of s'] Cons.prems s' by simp
  then show ?case using s' by auto
qed

subsection \<open>The constructors\<close>

lemma construct_repairers_snd:
  "snd (construct_repairers X dbname ids (h, rs)) =
     rs @ map (\<lambda>lg. new_Repairer (dbname @ ''/'' @ Uint64ToString X (ucast lg))) ids"
  by (induction ids arbitrary: h rs) (simp_all add: construct_Repairer_def Let_def)

lemma construct_repairers_trace:
  "\<exists>es. fst (construct_repairers X dbname ids (h, rs)) = h @ es
        \<and> (\<forall>e \<in> set es. construction_event e)
        \<and> pick sanitized es = map (\<lambda>lg. dbname @ ''/'' @ Uint64ToString X (ucast lg)) ids"
proof (induction ids arbitrary: h rs)
  case Nil
  show ?case by simp
next
  case (Cons lg ids)
  let ?n = "dbname @ ''/'' @ Uint64ToString X (ucast lg)"
  obtain h1 r where c: "construct_Repairer X ?n h = (h1, r)"
    by (cases "construct_Repairer X ?n h")
  obtain es1 where 1: "h1 = h @ es1" "\<forall>e \<in> set es1. construction_event e"
      "pick sanitized es1 = [?n]"
    using c by (auto simp: construct_Repairer_def Let_def split: if_splits)
  from Cons [of h1 "rs @ [r]"] obtain es2 where
    2: "fst (construct_repairers X dbname ids (h1, rs @ [r])) = h1 @ es2"
       "\<forall>e \<in> set es2. construction_event e"
       "pick sanitized es2 = map (\<lambda>lg. dbname @ ''/'' @ Uint64ToString X (ucast lg)) ids"
    by blast
  show ?case
    using c 1 2 by (intro exI [of _ "es1 @ es2"]) auto
qed

lemma new_DBRepairer_Inr:
  assumes "new_DBRepairer X dbname lgs h0 = Inr (h, d)"
  shows "ok (CreateDir X h0 dbname)"
    and "exist_lg_list d = (case lgs of None \<Rightarrow> [0] | Some l \<Rightarrow> sort (remdups l))"
    and "repairers d =
           map (\<lambda>lg. new_Repairer (dbname @ ''/'' @ Uint64ToString X (ucast lg))) (exist_lg_list d)"
    and "db_dbname' d = dbname" "log_number' d = 0" "logfiles' d = []" "last_sequence' d = 0"
    and "\<exists>es. h = h0 @ ECreateDir dbname # es \<and> (\<forall>e \<in> set es. construction_event e)
           \<and> pick sanitized es =
               map (\<lambda>lg. dbname @ ''/'' @ Uint64ToString X (ucast lg)) (exist_lg_list d)"
proof -
  let ?ids = "case lgs of None \<Rightarrow> [0] | Some l \<Rightarrow> sort (remdups l)"
  have c: "ok (CreateDir X h0 dbname)"
    using assms by (auto simp: new_DBRepairer_def InitDefaultOptions_def Let_def split: if_splits)
  obtain h2 rs where cr: "construct_repairers X dbname ?ids (h0 @ [ECreateDir dbname], []) = (h2, rs)"
    by (cases "construct_repairers X dbname ?ids (h0 @ [ECreateDir dbname], [])")
  have hd: "h = h2"
    "d = \<lparr>repairers = rs, db_dbname' = dbname, exist_lg_list = ?ids, log_number' = 0,
          logfiles' = [], last_sequence' = 0\<rparr>"
    using assms c cr by (simp_all add: new_DBRepairer_def InitDefaultOptions_def Let_def)
  show "ok (CreateDir X h0 dbname)" by (rule c)
  show "exist_lg_list d = ?ids" using hd by simp
  show "repairers d =
           map (\<lambda>lg. new_Repairer (dbname @ ''/'' @ Uint64ToString X (ucast lg))) (exist_lg_list d)"
    using construct_repairers_snd [of X dbname ?ids "h0 @ [ECreateDir dbname]" "[]"] cr hd by simp
  show "db_dbname' d = dbname" "log_number' d = 0" "logfiles' d = []" "last_sequence' d = 0"
    using hd by simp_all
  show "\<exists>es. h = h0 @ ECreateDir dbname # es \<and> (\<forall>e \<in> set es. construction_event e)
           \<and> pick sanitized es =
               map (\<lambda>lg. dbname @ ''/'' @ Uint64ToString X (ucast lg)) (exist_lg_list d)"
    using construct_repairers_trace [of X dbname ?ids "h0 @ [ECreateDir dbname]" "[]"] cr hd
    by auto
qed

lemma delete_DBRepairer_fold:
  "fold_fault (\<lambda>lg u. bind_fault (at_index rs (unat lg)) (\<lambda>r. Inr ())) ids () =
     (if \<forall>lg \<in> set ids. unat lg < length rs then Inr () else Inl OutOfBounds)"
  by (induction ids) (auto simp: at_index_def)
subsection \<open>An empty root directory\<close>

text \<open>
  Claim C9, as amended. When the root directory is enumerated without error and has no
  entry, \<open>Run\<close> returns the status \<open>IOError(dbname, "repair found no files")\<close> (not a
  \<open>NotFound\<close>) and leaves the coordinator as the constructor made it, and so does the
  repair, unless an id of the list of LGs is not below the number of LGs: then the
  destructor indexes \<open>repairers\<close> out of bounds. Up to its return the repair has created
  the root directory (\<open>InitDefaultOptions\<close>), constructed the repairers (one call of
  \<open>SanitizeOptions\<close> for each LG, in the order of the list, each with at most the log line
  of a new table cache), and enumerated the root directory; db/repair.cc has renamed,
  deleted and written nothing.
\<close>

theorem empty_root_IOError:
  assumes mk: "new_DBRepairer X dbname lgs [] = Inr (hc, d)"
    and ls: "GetChildren X hc dbname = (s, [])" and s: "ok s"
  shows "(\<exists>es. hc = ECreateDir dbname # es \<and> (\<forall>e \<in> set es. construction_event e)
            \<and> pick sanitized es =
                map (\<lambda>lg. dbname @ ''/'' @ Uint64ToString X (ucast lg)) (exist_lg_list d))
       \<and> exist_lg_list d = (case lgs of None \<Rightarrow> [0] | Some l \<Rightarrow> sort (remdups l))
       \<and> length (repairers d) = length (exist_lg_list d)
       \<and> Run X (hc, d) =
           Inr (IOError dbname ''repair found no files'', hc @ [EGetChildren dbname], d)
       \<and> RepairDB X dbname lgs =
           (if \<forall>lg \<in> set (exist_lg_list d). unat lg < length (exist_lg_list d)
            then Inr (IOError dbname ''repair found no files'', hc @ [EGetChildren dbname])
            else Inl OutOfBounds)"
proof -
  note n = new_DBRepairer_Inr [OF mk]
  have len: "length (repairers d) = length (exist_lg_list d)"
    using n(3) by (metis length_map)
  have run: "Run X (hc, d) =
           Inr (IOError dbname ''repair found no files'', hc @ [EGetChildren dbname], d)"
    using ls s n(4) by (simp add: Run_def DB_FindFiles_def Let_def)
  have del: "delete_DBRepairer d =
      (if \<forall>lg \<in> set (exist_lg_list d). unat lg < length (exist_lg_list d)
       then Inr () else Inl OutOfBounds)"
    using delete_DBRepairer_fold [of "repairers d" "exist_lg_list d"] len
    by (simp add: delete_DBRepairer_def)
  have rep: "RepairDB X dbname lgs =
           (if \<forall>lg \<in> set (exist_lg_list d). unat lg < length (exist_lg_list d)
            then Inr (IOError dbname ''repair found no files'', hc @ [EGetChildren dbname])
            else Inl OutOfBounds)"
    using mk run del by (simp add: RepairDB_def)
  show ?thesis
    using n(8) n(2) len run rep by simp
qed

theorem empty_root_IOError_witness:
  "new_DBRepairer quiet ''db'' None [] =
     Inr ([ECreateDir ''db'', ESanitizeOptions ''db/0'', ELog (LogCreateTableCache ''db/0'')],
          single_lg)
   \<and> RepairDB quiet ''db'' None =
       Inr (IOError ''db'' ''repair found no files'',
            [ECreateDir ''db'', ESanitizeOptions ''db/0'', ELog (LogCreateTableCache ''db/0''),
             EGetChildren ''db''])
   \<and> RepairDB quiet ''db'' (Some [5, 0]) = Inl OutOfBounds"
proof -
  have mk: "new_DBRepairer quiet ''db'' None [] =
     Inr ([ECreateDir ''db'', ESanitizeOptions ''db/0'', ELog (LogCreateTableCache ''db/0'')],
          single_lg)"
    by (simp add: new_DBRepairer_def InitDefaultOptions_def construct_Repairer_def quiet_def
          single_lg_def digit_name_def)
  have mk5: "new_DBRepairer quiet ''db'' (Some [5, 0]) [] =
     Inr ([ECreateDir ''db'', ESanitizeOptions ''db/0'', ELog (LogCreateTableCache ''db/0''),
           ESanitizeOptions ''db/5'', ELog (LogCreateTableCache ''db/5'')], lgs_0_5)"
    by (simp add: new_DBRepairer_def InitDefaultOptions_def construct_Repairer_def quiet_def
          lgs_0_5_def digit_name_def)
  have ls: "GetChildren quiet h ''db'' = (OK, [])" for h
    by (simp add: quiet_def)
  have a: "RepairDB quiet ''db'' None =
       Inr (IOError ''db'' ''repair found no files'',
            [ECreateDir ''db'', ESanitizeOptions ''db/0'', ELog (LogCreateTableCache ''db/0''),
             EGetChildren ''db''])"
    using empty_root_IOError [OF mk ls] by (simp add: single_lg_def)
  have b: "RepairDB quiet ''db'' (Some [5, 0]) = Inl OutOfBounds"
    using empty_root_IOError [OF mk5 ls] by (simp add: lgs_0_5_def)
  show ?thesis using mk a b by blast
qed

text \<open>
  The claim as it was stated asks for a \<open>NotFound\<close>: in the environment where every call
  succeeds and the root directory is empty, the repair of \<open>db\<close> returns an \<open>IOError\<close>.
\<close>

theorem empty_root_counterexample:
  "RepairDB quiet ''db'' None =
     Inr (IOError ''db'' ''repair found no files'',
          [ECreateDir ''db'', ESanitizeOptions ''db/0'', ELog (LogCreateTableCache ''db/0''),
           EGetChildren ''db''])
   \<and> \<not> is_NotFound (IOError ''db'' ''repair found no files'')"
  by (simp add: RepairDB_def new_DBRepairer_def InitDefaultOptions_def construct_Repairer_def
        Run_def DB_FindFiles_def Let_def quiet_def delete_DBRepairer_def at_index_def
        digit_name_def)

subsection \<open>The installation of a descriptor\<close>

lemma ArchiveFile_append:
  "\<exists>es. ArchiveFile X d f h = h @ es \<and> ERenameFile f (lost_file f) \<in> set es"
  by (simp add: ArchiveFile_def Let_def)

lemma foldl_ArchiveFile_mono:
  "set h \<subseteq> set (foldl (\<lambda>h m. ArchiveFile X d (g m) h) h ms)"
proof (induction ms arbitrary: h)
  case Nil
  show ?case by simp
next
  case (Cons m ms)
  have "set h \<subseteq> set (ArchiveFile X d (g m) h)"
    by (auto simp add: ArchiveFile_def Let_def)
  also have "\<dots> \<subseteq> set (foldl (\<lambda>h m. ArchiveFile X d (g m) h) (ArchiveFile X d (g m) h) ms)"
    by (rule Cons.IH)
  finally show ?case by simp
qed

lemma foldl_ArchiveFile_renames:
  "m \<in> set ms \<Longrightarrow>
     ERenameFile (g m) (lost_file (g m)) \<in> set (foldl (\<lambda>h m. ArchiveFile X d (g m) h) h ms)"
proof (induction ms arbitrary: h)
  case Nil
  then show ?case by simp
next
  case (Cons a ms)
  show ?case
  proof (cases "m = a")
    case True
    have "ERenameFile (g a) (lost_file (g a)) \<in> set (ArchiveFile X d (g a) h)"
      by (simp add: ArchiveFile_def Let_def)
    then show ?thesis
      using foldl_ArchiveFile_mono [of "ArchiveFile X d (g a) h" X d g ms] True by auto
  next
    case False
    then show ?thesis using Cons by simp
  qed
qed

lemma archive_manifests_renames:
  "m \<in> set ms \<Longrightarrow>
     ERenameFile (d @ CHR ''/'' # m) (lost_file (d @ CHR ''/'' # m))
       \<in> set (archive_manifests X d ms h)"
  using foldl_ArchiveFile_renames [where g = "\<lambda>m. d @ ''/'' @ m" and m = m and ms = ms]
  by (simp add: archive_manifests_def)

text \<open>
  Claim C8, as amended. \<open>WriteDescriptor\<close> returns the error of the first step that fails.
  When the temporary file cannot be created, nothing else is done: nothing is deleted
  and no manifest is archived. When the write or the close fails, the temporary file is
  deleted (the result of the deletion is ignored) and no manifest is archived. When the
  rename to the descriptor's name fails, the temporary file is deleted, but every old
  manifest has been archived before the rename was tried.
\<close>

theorem WriteDescriptor_failure:
  "(let tmp = TempFileName X (dbname' r) 1;
        e = descriptor_edit X r;
        r1 = r\<lparr>edit' := e\<rparr>;
        h1 = h @ [ENewWritableFile tmp];
        h2 = h1 @ [EAddRecord tmp e];
        h3 = h2 @ [EClose tmp];
        h4 = archive_manifests X (dbname' r) (manifests' r) h3;
        dst = DescriptorFileName X (dbname' r) 1
    in (\<not> ok (NewWritableFile X h tmp) \<longrightarrow>
          WriteDescriptor X (h, r) = (NewWritableFile X h tmp, h1, r))
     \<and> (ok (NewWritableFile X h tmp) \<and> \<not> ok (AddRecord X h1 tmp e) \<longrightarrow>
          WriteDescriptor X (h, r) = (AddRecord X h1 tmp e, h2 @ [EDeleteFile tmp], r1))
     \<and> (ok (NewWritableFile X h tmp) \<and> ok (AddRecord X h1 tmp e) \<and> \<not> ok (Close X h2 tmp) \<longrightarrow>
          WriteDescriptor X (h, r) = (Close X h2 tmp, h3 @ [EDeleteFile tmp], r1))
     \<and> (ok (NewWritableFile X h tmp) \<and> ok (AddRecord X h1 tmp e) \<and> ok (Close X h2 tmp)
          \<and> \<not> ok (RenameFile X h4 tmp dst) \<longrightarrow>
          WriteDescriptor X (h, r) =
            (RenameFile X h4 tmp dst, h4 @ [ERenameFile tmp dst, EDeleteFile tmp], r1)
          \<and> (\<forall>m \<in> set (manifests' r).
                ERenameFile (dbname' r @ ''/'' @ m) (lost_file (dbname' r @ ''/'' @ m)) \<in> set h4)))"
  by (simp add: WriteDescriptor_def Let_def archive_manifests_renames)

lemma lost_file_manifest: "lost_file ''db/0/MANIFEST-5'' = ''db/0/lost/MANIFEST-5''"
  by (simp add: lost_file_def lost_dir_def has_slash_def before_slash_def after_slash_def)

lemma lost_dir_manifest: "lost_dir ''db/0/MANIFEST-5'' = ''db/0/lost''"
  by (simp add: lost_dir_def has_slash_def before_slash_def)

theorem WriteDescriptor_failure_witness:
  "fst (WriteDescriptor fail_create ([], old_manifest)) = IOError ''db/0/1.dbtmp'' ''create''
   \<and> fst (snd (WriteDescriptor fail_create ([], old_manifest))) = [ENewWritableFile ''db/0/1.dbtmp'']
   \<and> fst (WriteDescriptor fail_write ([], old_manifest)) = IOError ''db/0/1.dbtmp'' ''write''
   \<and> fst (snd (WriteDescriptor fail_write ([], old_manifest))) =
       [ENewWritableFile ''db/0/1.dbtmp'',
        EAddRecord ''db/0/1.dbtmp'' (descriptor_edit fail_write old_manifest),
        EDeleteFile ''db/0/1.dbtmp'']
   \<and> fst (WriteDescriptor fail_close ([], old_manifest)) = IOError ''db/0/1.dbtmp'' ''close''
   \<and> fst (snd (WriteDescriptor fail_close ([], old_manifest))) =
       [ENewWritableFile ''db/0/1.dbtmp'',
        EAddRecord ''db/0/1.dbtmp'' (descriptor_edit fail_close old_manifest),
        EClose ''db/0/1.dbtmp'', EDeleteFile ''db/0/1.dbtmp'']
   \<and> fst (WriteDescriptor fail_install ([], old_manifest)) = IOError ''db/0/1.dbtmp'' ''rename''
   \<and> ERenameFile ''db/0/MANIFEST-5'' ''db/0/lost/MANIFEST-5''
        \<in> set (fst (snd (WriteDescriptor fail_install ([], old_manifest))))"
proof -
  have a: "fst (WriteDescriptor fail_create ([], old_manifest)) = IOError ''db/0/1.dbtmp'' ''create''
     \<and> fst (snd (WriteDescriptor fail_create ([], old_manifest))) = [ENewWritableFile ''db/0/1.dbtmp'']"
    using WriteDescriptor_failure [of fail_create old_manifest "[]"]
    by (simp add: Let_def fail_create_def quiet_def old_manifest_def new_Repairer_def digit_name_def)
  have b: "fst (WriteDescriptor fail_write ([], old_manifest)) = IOError ''db/0/1.dbtmp'' ''write''
     \<and> fst (snd (WriteDescriptor fail_write ([], old_manifest))) =
       [ENewWritableFile ''db/0/1.dbtmp'',
        EAddRecord ''db/0/1.dbtmp'' (descriptor_edit fail_write old_manifest),
        EDeleteFile ''db/0/1.dbtmp'']"
    using WriteDescriptor_failure [of fail_write old_manifest "[]"]
    by (simp add: Let_def fail_write_def quiet_def old_manifest_def new_Repairer_def digit_name_def)
  have c: "fst (WriteDescriptor fail_close ([], old_manifest)) = IOError ''db/0/1.dbtmp'' ''close''
     \<and> fst (snd (WriteDescriptor fail_close ([], old_manifest))) =
       [ENewWritableFile ''db/0/1.dbtmp'',
        EAddRecord ''db/0/1.dbtmp'' (descriptor_edit fail_close old_manifest),
        EClose ''db/0/1.dbtmp'', EDeleteFile ''db/0/1.dbtmp'']"
    using WriteDescriptor_failure [of fail_close old_manifest "[]"]
    by (simp add: Let_def fail_close_def quiet_def old_manifest_def new_Repairer_def digit_name_def)
  have d: "fst (WriteDescriptor fail_install ([], old_manifest)) = IOError ''db/0/1.dbtmp'' ''rename''
     \<and> ERenameFile ''db/0/MANIFEST-5'' ''db/0/lost/MANIFEST-5''
        \<in> set (fst (snd (WriteDescriptor fail_install ([], old_manifest))))"
    using WriteDescriptor_failure [of fail_install old_manifest "[]"]
    by (simp add: Let_def fail_install_def quiet_def old_manifest_def new_Repairer_def digit_name_def
          lost_file_manifest)
  show ?thesis using a b c d by blast
qed

text \<open>
  Against the claim as stated: when the rename fails, the old manifest has already been
  moved to \<open>lost/\<close>; and when the creation fails, no deletion is attempted.
\<close>

theorem WriteDescriptor_failure_counterexample:
  "WriteDescriptor fail_install ([], old_manifest) =
     (IOError ''db/0/1.dbtmp'' ''rename'',
      [ENewWritableFile ''db/0/1.dbtmp'',
       EAddRecord ''db/0/1.dbtmp'' (descriptor_edit fail_install old_manifest),
       EClose ''db/0/1.dbtmp'',
       ECreateDir ''db/0/lost'',
       ERenameFile ''db/0/MANIFEST-5'' ''db/0/lost/MANIFEST-5'',
       ELog (LogArchiving ''db/0'' ''db/0/MANIFEST-5'' OK),
       ERenameFile ''db/0/1.dbtmp'' ''db/0/MANIFEST-1'',
       EDeleteFile ''db/0/1.dbtmp''],
      old_manifest\<lparr>edit' := descriptor_edit fail_install old_manifest\<rparr>)
   \<and> WriteDescriptor fail_create ([], old_manifest) =
     (IOError ''db/0/1.dbtmp'' ''create'', [ENewWritableFile ''db/0/1.dbtmp''], old_manifest)"
  by (simp add: WriteDescriptor_def Let_def fail_install_def fail_create_def quiet_def
        old_manifest_def new_Repairer_def digit_name_def archive_manifests_def ArchiveFile_def
        lost_file_manifest lost_dir_manifest)

subsection \<open>The contents of the descriptor\<close>

lemma fold_max_sequence:
  "fold (\<lambda>t m. if m < max_sequence t then max_sequence t else m) ts (m0 :: u64) =
     Max (insert m0 (max_sequence ` set ts))"
proof (induction ts arbitrary: m0)
  case Nil
  show ?case by simp
next
  case (Cons t ts)
  have "Max (insert (if m0 < max_sequence t then max_sequence t else m0) (max_sequence ` set ts))
        = Max (insert m0 (insert (max_sequence t) (max_sequence ` set ts)))"
  proof (cases "max_sequence ` set ts = {}")
    case True
    then show ?thesis by (auto simp: max_def)
  next
    case False
    then show ?thesis by (auto simp: max_def)
  qed
  then show ?case using Cons by simp
qed

lemma descriptor_max_sequence_Max:
  "descriptor_max_sequence ts = Max (insert 0 (max_sequence ` set ts))"
  by (simp add: descriptor_max_sequence_def fold_max_sequence)

lemma fold_AddFile_files:
  "new_files' (fold (\<lambda>t e. AddFile 0 (number (meta t)) (file_size (meta t))
                    (smallest (meta t)) (largest (meta t)) e) ts e0) =
     new_files' e0 @ map (\<lambda>t. (0, meta t)) ts"
  by (induction ts arbitrary: e0) (simp_all add: AddFile_def)

lemma fold_AddFile_rest:
  "comparator' (fold (\<lambda>t e. AddFile 0 (number (meta t)) (file_size (meta t))
                    (smallest (meta t)) (largest (meta t)) e) ts e0) = comparator' e0"
  "ve_log_number' (fold (\<lambda>t e. AddFile 0 (number (meta t)) (file_size (meta t))
                    (smallest (meta t)) (largest (meta t)) e) ts e0) = ve_log_number' e0"
  "ve_next_file_number' (fold (\<lambda>t e. AddFile 0 (number (meta t)) (file_size (meta t))
                    (smallest (meta t)) (largest (meta t)) e) ts e0) = ve_next_file_number' e0"
  "ve_last_sequence' (fold (\<lambda>t e. AddFile 0 (number (meta t)) (file_size (meta t))
                    (smallest (meta t)) (largest (meta t)) e) ts e0) = ve_last_sequence' e0"
  by (induction ts arbitrary: e0) (simp_all add: AddFile_def)

lemma descriptor_edit_fields:
  "comparator' (descriptor_edit X r) = Some (comparator_Name X)"
  "ve_log_number' (descriptor_edit X r) = Some 0"
  "ve_next_file_number' (descriptor_edit X r) = Some (next_file_number' r)"
  "ve_last_sequence' (descriptor_edit X r) = Some (Max (insert 0 (max_sequence ` set (tables' r))))"
  "new_files' (descriptor_edit X r) = new_files' (edit' r) @ map (\<lambda>t. (0, meta t)) (tables' r)"
  by (simp_all add: descriptor_edit_def fold_AddFile_files fold_AddFile_rest
        SetLastSequence_def SetNextFile_def SetLogNumber_def SetComparatorName_def
        descriptor_max_sequence_Max)









subsection \<open>A table without a parseable key\<close>

lemma lost_file_in_dir:
  assumes "CHR ''/'' \<notin> set base"
  shows "lost_file (dir @ ''/'' @ base) = dir @ ''/lost/'' @ base"
proof -
  have all: "\<forall>c \<in> set (rev base). c \<noteq> CHR ''/''"
    using assms by auto
  have t: "takeWhile (\<lambda>c. c \<noteq> CHR ''/'') (rev base @ CHR ''/'' # rev dir) = rev base"
    using all by (simp add: takeWhile_tail)
  have d: "dropWhile (\<lambda>c. c \<noteq> CHR ''/'') (rev base @ CHR ''/'' # rev dir) = CHR ''/'' # rev dir"
    using all by (simp add: dropWhile_append3)
  show ?thesis
    by (simp add: lost_file_def lost_dir_def has_slash_def before_slash_def after_slash_def t d)
qed

lemma unparsable_all: "parseable X keys = [] \<Longrightarrow> unparsable X keys = keys"
  by (induction keys) (auto simp: parseable_def unparsable_def split: if_splits)

lemma ScanTable_empty:
  assumes sz: "GetFileSize X h (TableFileName X d n) = (szs, sz)" and good: "ok szs"
    and it: "NewIterator X (h @ [EGetFileSize (TableFileName X d n)]) d n sz = (keys, its)"
    and none: "parseable X keys = []"
  shows "fst (ScanTable X d (fresh_TableInfo n) h) =
           (if ok its then Corruption ''sst is empty'' [] else its)"
    and "fst (snd (ScanTable X d (fresh_TableInfo n) h)) =
           h @ [EGetFileSize (TableFileName X d n), ENewIterator d n sz]
             @ map (\<lambda>k. ELog (LogUnparsableKey d n k)) keys
             @ [ELog (LogTableEntries d n 0
                        (if ok its then Corruption ''sst is empty'' [] else its))]"
proof -
  have n: "number (meta (fresh_TableInfo n)) = n"
    by (simp add: fresh_TableInfo_def)
  note g = ScanTable_good [of X h d "fresh_TableInfo n", unfolded n, OF sz it good]
  show "fst (ScanTable X d (fresh_TableInfo n) h) =
           (if ok its then Corruption ''sst is empty'' [] else its)"
    using g none by simp
  show "fst (snd (ScanTable X d (fresh_TableInfo n) h)) =
           h @ [EGetFileSize (TableFileName X d n), ENewIterator d n sz]
             @ map (\<lambda>k. ELog (LogUnparsableKey d n k)) keys
             @ [ELog (LogTableEntries d n 0
                        (if ok its then Corruption ''sst is empty'' [] else its))]"
    using g none by (simp add: scan_keys_trace unparsable_all n)
qed

text \<open>
  Claim C5. Take a table whose size can be read and whose iterator yields no key that
  parses. Its scan fails: with \<open>Corruption("sst is empty")\<close> when the iterator ended
  without error (and with the iterator's own error otherwise). \<open>ExtractMetaData\<close> and
  \<open>AddTableMeta\<close> then archive the file, renaming it to \<open>lost/\<close> below its directory, and
  leave the repairer as it was: no table info is added, and the files of the descriptor
  are those of the table infos, so the descriptor does not refer to the table.
\<close>

theorem empty_table_archived:
  assumes sz: "GetFileSize X h (TableFileName X (dbname' r) n) = (szs, sz)" and good: "ok szs"
    and it: "NewIterator X (h @ [EGetFileSize (TableFileName X (dbname' r) n)]) (dbname' r) n sz
               = (keys, its)"
    and none: "parseable X keys = []"
  shows "(let d = dbname' r;
              fname = TableFileName X d n;
              s = (if ok its then Corruption ''sst is empty'' [] else its);
              h1 = h @ [EGetFileSize fname, ENewIterator d n sz]
                     @ map (\<lambda>k. ELog (LogUnparsableKey d n k)) keys
                     @ [ELog (LogTableEntries d n 0 s), ELog (LogTableIgnoring d n s)];
              h2 = h1 @ [ECreateDir (lost_dir fname), ERenameFile fname (lost_file fname),
                         ELog (LogArchiving d fname
                                 (RenameFile X (h1 @ [ECreateDir (lost_dir fname)])
                                    fname (lost_file fname)))]
          in fst (ScanTable X d (fresh_TableInfo n) h) = s \<and> \<not> ok s
           \<and> ExtractMetaData_table X (h, r) n = (h2, r)
           \<and> AddTableMeta X n (h, r) = (s, h2, r)
           \<and> (\<forall>dir base. fname = dir @ ''/'' @ base \<and> CHR ''/'' \<notin> set base \<longrightarrow>
                 lost_file fname = dir @ ''/lost/'' @ base)
           \<and> new_files' (descriptor_edit X r) =
                new_files' (edit' r) @ map (\<lambda>t. (0, meta t)) (tables' r))"
proof -
  let ?d = "dbname' r"
  let ?s = "if ok its then Corruption ''sst is empty'' [] else its"
  obtain s' h' t' where sc: "ScanTable X ?d (fresh_TableInfo n) h = (s', h', t')"
    by (cases "ScanTable X ?d (fresh_TableInfo n) h")
  have s': "s' = ?s" using ScanTable_empty(1) [OF sz good it none] sc by simp
  have h': "h' = h @ [EGetFileSize (TableFileName X ?d n), ENewIterator ?d n sz]
             @ map (\<lambda>k. ELog (LogUnparsableKey ?d n k)) keys
             @ [ELog (LogTableEntries ?d n 0 ?s)]"
    using ScanTable_empty(2) [OF sz good it none] sc by simp
  have nok: "\<not> ok ?s" by simp
  have e: "ExtractMetaData_table X (h, r) n =
      (ArchiveFile X ?d (TableFileName X ?d n) (h' @ [ELog (LogTableIgnoring ?d n ?s)]), r)"
    using sc s' nok by (simp add: ExtractMetaData_table_def Let_def)
  have a: "AddTableMeta X n (h, r) =
      (?s, ArchiveFile X ?d (TableFileName X ?d n) (h' @ [ELog (LogTableIgnoring ?d n ?s)]), r)"
    using sc s' nok by (simp add: AddTableMeta_def Let_def)
  show ?thesis
    unfolding Let_def e a
    using sc s' nok lost_file_in_dir
    by (simp add: h' ArchiveFile_def Let_def descriptor_edit_fields)
qed

theorem empty_table_archived_witness:
  "fst (ScanTable garbage_only ''db/0'' (fresh_TableInfo 1) []) = Corruption ''sst is empty'' []
   \<and> ExtractMetaData_table garbage_only ([], new_Repairer ''db/0'') 1 =
       ([EGetFileSize ''db/0/1.sst'', ENewIterator ''db/0'' 1 0,
         ELog (LogUnparsableKey ''db/0'' 1 ''??''),
         ELog (LogTableEntries ''db/0'' 1 0 (Corruption ''sst is empty'' [])),
         ELog (LogTableIgnoring ''db/0'' 1 (Corruption ''sst is empty'' [])),
         ECreateDir ''db/0/lost'', ERenameFile ''db/0/1.sst'' ''db/0/lost/1.sst'',
         ELog (LogArchiving ''db/0'' ''db/0/1.sst'' OK)],
        new_Repairer ''db/0'')
   \<and> new_files' (descriptor_edit garbage_only (new_Repairer ''db/0'')) = []"
proof -
  have d: "dbname' (new_Repairer ''db/0'') = ''db/0''"
    by (simp add: new_Repairer_def)
  have sz: "GetFileSize garbage_only [] (TableFileName garbage_only (dbname' (new_Repairer ''db/0'')) 1)
              = (OK, 0)"
    by (simp add: garbage_only_def quiet_def)
  have it: "NewIterator garbage_only
              ([] @ [EGetFileSize (TableFileName garbage_only (dbname' (new_Repairer ''db/0'')) 1)])
              (dbname' (new_Repairer ''db/0'')) 1 0 = ([''??''], OK)"
    by (simp add: garbage_only_def quiet_def)
  have none: "parseable garbage_only [''??''] = []"
    by (simp add: parseable_def garbage_only_def quiet_def)
  have f: "TableFileName garbage_only ''db/0'' 1 = ''db/0/1.sst''"
    by (simp add: garbage_only_def quiet_def digit_name_def)
  have l: "lost_file ''db/0/1.sst'' = ''db/0/lost/1.sst''" "lost_dir ''db/0/1.sst'' = ''db/0/lost''"
    by (simp_all add: lost_file_def lost_dir_def has_slash_def before_slash_def after_slash_def)
  have rn: "RenameFile garbage_only h a b = OK" for h a b
    by (simp add: garbage_only_def quiet_def)
  have e: "new_files' (edit' (new_Repairer ''db/0'')) = []" "tables' (new_Repairer ''db/0'') = []"
    by (simp_all add: new_Repairer_def empty_edit_def)
  show ?thesis
    using empty_table_archived [OF sz _ it none]
    by (simp add: Let_def d f l rn e)
qed

subsection \<open>The status of the repair\<close>

lemma pick_ArchiveFile:
  assumes "\<And>a. f (ECreateDir a) = None" "\<And>a b. f (ERenameFile a b) = None"
    "\<And>a b c. f (ELog (LogArchiving a b c)) = None"
  shows "pick f (ArchiveFile X d n h) = pick f h"
  using assms by (simp add: ArchiveFile_def Let_def)

lemma pick_archive_manifests:
  assumes "\<And>a. f (ECreateDir a) = None" "\<And>a b. f (ERenameFile a b) = None"
    "\<And>a b c. f (ELog (LogArchiving a b c)) = None"
  shows "pick f (archive_manifests X d ms h) = pick f h"
  unfolding archive_manifests_def
  by (induction ms arbitrary: h) (simp_all add: pick_ArchiveFile [of f, OF assms])

lemma ArchiveFile_extends: "\<exists>es. ArchiveFile X d n h = h @ es"
  by (simp add: ArchiveFile_def Let_def)

lemma archive_manifests_extends: "\<exists>es. archive_manifests X d ms h = h @ es"
  unfolding archive_manifests_def
proof (induction ms arbitrary: h)
  case Nil
  show ?case by simp
next
  case (Cons m ms)
  obtain es1 where 1: "ArchiveFile X d (d @ ''/'' @ m) h = h @ es1"
    using ArchiveFile_extends by blast
  obtain es2 where "foldl (\<lambda>h m. ArchiveFile X d (d @ ''/'' @ m) h) (h @ es1) ms = (h @ es1) @ es2"
    using Cons [of "h @ es1"] by blast
  then show ?case using 1 by simp
qed

lemma WriteDescriptor_extends:
  "\<exists>es. fst (snd (WriteDescriptor X (h, r))) = h @ ENewWritableFile (TempFileName X (dbname' r) 1) # es
        \<and> pick descriptor_error es = [] \<and> pick temp_created es = []"
proof -
  let ?tmp = "TempFileName X (dbname' r) 1"
  let ?h3 = "h @ [ENewWritableFile ?tmp, EAddRecord ?tmp (descriptor_edit X r), EClose ?tmp]"
  obtain es where es: "archive_manifests X (dbname' r) (manifests' r) ?h3 = ?h3 @ es"
    using archive_manifests_extends by blast
  have "pick descriptor_error (archive_manifests X (dbname' r) (manifests' r) ?h3)
          = pick descriptor_error ?h3"
    by (rule pick_archive_manifests) simp_all
  then have 1: "pick descriptor_error es = []"
    unfolding es by simp
  have "pick temp_created (archive_manifests X (dbname' r) (manifests' r) ?h3)
          = pick temp_created ?h3"
    by (rule pick_archive_manifests) simp_all
  then have 2: "pick temp_created es = []"
    unfolding es by simp
  show ?thesis
    using es 1 2 by (auto simp add: WriteDescriptor_def Let_def split: if_splits)
qed

lemma WriteDescriptor_dbname: "dbname' (snd (snd (WriteDescriptor X (h, r)))) = dbname' r"
  by (auto simp add: WriteDescriptor_def Let_def split: if_splits)

lemma last_error_append: "last_error (last_error s0 xs) ys = last_error s0 (xs @ ys)"
  by (simp add: last_error_def)

lemma DB_WriteDescriptor_lg_step:
  assumes "DB_WriteDescriptor_lg X lg (st, h, d) = Inr (st', h', d')"
  shows "\<exists>es. h' = h @ es \<and> st' = last_error st (pick descriptor_error es)
           \<and> (\<forall>e \<in> set (pick descriptor_error es). \<not> ok (snd e))
           \<and> pick temp_created es = [TempFileName X (dbname' (repairers d ! unat lg)) 1]"
    and "map dbname' (repairers d') = map dbname' (repairers d)"
    and "exist_lg_list d' = exist_lg_list d"
proof -
  have inb: "unat lg < length (repairers d)"
    using assms by (auto simp: DB_WriteDescriptor_lg_def at_index_def split: if_splits)
  let ?r = "repairers d ! unat lg"
  obtain s h1 r1 where w: "WriteDescriptor X (h, ?r) = (s, h1, r1)"
    by (cases "WriteDescriptor X (h, ?r)")
  obtain es where es: "h1 = h @ ENewWritableFile (TempFileName X (dbname' ?r) 1) # es"
      "pick descriptor_error es = []" "pick temp_created es = []"
    using WriteDescriptor_extends [of X h ?r] w by auto
  have r1: "dbname' r1 = dbname' ?r"
    using WriteDescriptor_dbname [of X h ?r] w by simp
  have res: "st' = (if ok s then st else s)"
      "h' = (if ok s then h1 else h1 @ [ELog (LogWriteDescriptorError (db_dbname' d) lg s)])"
      "d' = d\<lparr>repairers := (repairers d)[unat lg := r1]\<rparr>"
    using assms inb w by (auto simp: DB_WriteDescriptor_lg_def at_index_def Let_def split: if_splits)
  show "\<exists>es. h' = h @ es \<and> st' = last_error st (pick descriptor_error es)
           \<and> (\<forall>e \<in> set (pick descriptor_error es). \<not> ok (snd e))
           \<and> pick temp_created es = [TempFileName X (dbname' (repairers d ! unat lg)) 1]"
  proof (cases "ok s")
    case True
    then show ?thesis using res es by (auto simp: last_error_def)
  next
    case False
    then have "h' = h @ (ENewWritableFile (TempFileName X (dbname' ?r) 1) # es
                          @ [ELog (LogWriteDescriptorError (db_dbname' d) lg s)])"
      using res es by simp
    moreover have "st' = s" using False res by simp
    ultimately show ?thesis using es False
      by (intro exI [of _ "ENewWritableFile (TempFileName X (dbname' ?r) 1) # es
                          @ [ELog (LogWriteDescriptorError (db_dbname' d) lg s)]"])
         (simp add: last_error_def)
  qed
  show "map dbname' (repairers d') = map dbname' (repairers d)"
    using res(3) r1 inb by (simp add: map_update list_update_same_conv)
  show "exist_lg_list d' = exist_lg_list d"
    using res(3) by simp
qed

lemma length_lg_descriptor_statuses [simp]:
  "length (lg_descriptor_statuses X db ids (h, rs)) = length ids"
  by (induction ids arbitrary: h rs) (simp_all add: Let_def split: prod.splits)

lemma DB_WriteDescriptor_lg_result:
  assumes "DB_WriteDescriptor_lg X lg (st, h, d) = Inr (st', h', d')"
    and w: "WriteDescriptor X (h, repairers d ! unat lg) = (s, h1, r1)"
  shows "st' = (if ok s then st else s)"
      "h' = (if ok s then h1 else h1 @ [ELog (LogWriteDescriptorError (db_dbname' d) lg s)])"
      "d' = d\<lparr>repairers := (repairers d)[unat lg := r1]\<rparr>"
      "unat lg < length (repairers d)"
  using assms by (auto simp: DB_WriteDescriptor_lg_def at_index_def Let_def split: if_splits)

lemma DB_WriteDescriptor_fold_statuses:
  assumes "fold_fault (DB_WriteDescriptor_lg X) ids (st, h, d) = Inr (s, h', d')"
  shows "\<exists>es. h' = h @ es \<and> s = last_error st (pick descriptor_error es)
           \<and> pick temp_created es =
               map (\<lambda>lg. TempFileName X (map dbname' (repairers d) ! unat lg) 1) ids
           \<and> (\<forall>lg \<in> set ids. unat lg < length (repairers d))
           \<and> pick descriptor_error es =
               filter (\<lambda>e. \<not> ok (snd e))
                 (zip ids (lg_descriptor_statuses X (db_dbname' d) ids (h, repairers d)))"
  using assms
proof (induction ids arbitrary: st h d)
  case Nil
  then show ?case by (simp add: last_error_def)
next
  case (Cons lg ids)
  from Cons.prems obtain st1 h1 d1 where
    1: "DB_WriteDescriptor_lg X lg (st, h, d) = Inr (st1, h1, d1)" and
    2: "fold_fault (DB_WriteDescriptor_lg X) ids (st1, h1, d1) = Inr (s, h', d')"
    by (cases "DB_WriteDescriptor_lg X lg (st, h, d)") auto
  obtain s0 h0 r0 where w: "WriteDescriptor X (h, repairers d ! unat lg) = (s0, h0, r0)"
    by (cases "WriteDescriptor X (h, repairers d ! unat lg)")
  note r = DB_WriteDescriptor_lg_result [OF 1 w]
  from DB_WriteDescriptor_lg_step [OF 1] obtain es1 where
    a: "h1 = h @ es1" "st1 = last_error st (pick descriptor_error es1)"
       "pick temp_created es1 = [TempFileName X (dbname' (repairers d ! unat lg)) 1]"
    and m: "map dbname' (repairers d1) = map dbname' (repairers d)"
    by blast
  obtain es0 where e0: "h0 = h @ es0" "pick descriptor_error es0 = []"
    using WriteDescriptor_extends [of X h "repairers d ! unat lg"] w by auto
  have pe: "pick descriptor_error es1 = (if ok s0 then [] else [(lg, s0)])"
    using r(2) a(1) e0 by (auto split: if_splits)
  from Cons.IH [OF 2] obtain es2 where
    b: "h' = h1 @ es2" "s = last_error st1 (pick descriptor_error es2)"
       "pick temp_created es2 =
          map (\<lambda>lg. TempFileName X (map dbname' (repairers d1) ! unat lg) 1) ids"
       "\<forall>lg \<in> set ids. unat lg < length (repairers d1)"
       "pick descriptor_error es2 =
               filter (\<lambda>e. \<not> ok (snd e))
                 (zip ids (lg_descriptor_statuses X (db_dbname' d1) ids (h1, repairers d1)))"
    by blast
  have len: "length (repairers d1) = length (repairers d)"
    using m by (metis length_map)
  have st: "lg_descriptor_statuses X (db_dbname' d) (lg # ids) (h, repairers d) =
              s0 # lg_descriptor_statuses X (db_dbname' d1) ids (h1, repairers d1)"
    using w r by (simp add: Let_def)
  show ?case
    using a b m r(4) len pe unfolding st
    by (intro exI [of _ "es1 @ es2"]) (auto simp add: last_error_append)
qed

lemma map_snd_failures:
  "length ids = length ss \<Longrightarrow>
     map snd (filter (\<lambda>e. \<not> ok (snd e)) (zip ids ss)) = filter (\<lambda>s. \<not> ok s) ss"
  by (induction ids ss rule: list_induct2) auto

lemma last_error_failures:
  assumes "length ids = length ss"
  shows "last_error OK (filter (\<lambda>e. \<not> ok (snd e)) (zip ids ss)) = last_failure ss"
proof -
  have m: "map snd (filter (\<lambda>e. \<not> ok (snd e)) (zip ids ss)) = filter (\<lambda>s. \<not> ok s) ss"
    using assms by (rule map_snd_failures)
  show ?thesis
  proof (cases "filter (\<lambda>e. \<not> ok (snd e)) (zip ids ss) = []")
    case True
    then show ?thesis using m by (simp add: last_error_def last_failure_def)
  next
    case False
    then have "snd (last (filter (\<lambda>e. \<not> ok (snd e)) (zip ids ss))) =
               last (map snd (filter (\<lambda>e. \<not> ok (snd e)) (zip ids ss)))"
      by (simp add: last_map)
    then show ?thesis using False m
      by (auto simp add: last_error_def last_failure_def)
  qed
qed

lemma ok_last_failure: "ok (last_failure ss) \<longleftrightarrow> (\<forall>s \<in> set ss. ok s)"
proof (cases "filter (\<lambda>s. \<not> ok s) ss = []")
  case True
  then show ?thesis by (auto simp add: last_failure_def filter_empty_conv)
next
  case False
  then have "last (filter (\<lambda>s. \<not> ok s) ss) \<in> set (filter (\<lambda>s. \<not> ok s) ss)"
    by (rule last_in_set)
  then show ?thesis using False by (auto simp add: last_failure_def)
qed

lemma DB_WriteDescriptor_total:
  assumes "\<forall>lg \<in> set (exist_lg_list d). unat lg < length (repairers d)"
  shows "\<exists>s h' d'. DB_WriteDescriptor X (h, d) = Inr (s, h', d')"
proof -
  have "\<exists>s'. fold_fault (DB_WriteDescriptor_lg X) (exist_lg_list d) (OK, h, d) = Inr s'
          \<and> length (repairers (snd (snd s'))) = length (repairers (snd (snd (OK, h, d))))"
  proof (rule fold_fault_in_bounds [where sz = "\<lambda>s. length (repairers (snd (snd s)))"])
    fix lg :: u32 and s :: "status \<times> event list \<times> DBRepairer"
    assume "unat lg < length (repairers (snd (snd s)))"
    then show "\<exists>s'. DB_WriteDescriptor_lg X lg s = Inr s' \<and>
                length (repairers (snd (snd s'))) = length (repairers (snd (snd s)))"
      by (cases s) (auto simp: DB_WriteDescriptor_lg_def at_index_def Let_def split: prod.splits)
  next
    show "\<forall>lg \<in> set (exist_lg_list d). unat lg < length (repairers (snd (snd (OK, h, d))))"
      using assms by simp
  qed
  then show ?thesis
    by (auto simp add: DB_WriteDescriptor_def)
qed

text \<open>
  Claim C3, as amended. \<open>DBRepairer::WriteDescriptor\<close> asks every LG of the list, in
  order, to install its descriptor, whatever the LGs before it returned: it runs through
  whenever the ids are within the vector, and one temporary file is created for each LG.
  It logs an error for exactly the LGs whose \<open>WriteDescriptor\<close> did not return OK, with
  the status returned. It returns OK when every LG returned OK, and otherwise the status
  that the last failing LG returned (not the first). Once the discovery has succeeded,
  this is what \<open>Run\<close> returns.
\<close>

theorem DB_WriteDescriptor_last_error:
  "((\<forall>lg \<in> set (exist_lg_list d). unat lg < length (repairers d)) \<longrightarrow>
      (\<exists>s h' d'. DB_WriteDescriptor X (h, d) = Inr (s, h', d')))
   \<and> (\<forall>s h' d'. DB_WriteDescriptor X (h, d) = Inr (s, h', d') \<longrightarrow>
        s = last_failure (lg_descriptor_statuses X (db_dbname' d) (exist_lg_list d) (h, repairers d))
      \<and> (ok s \<longleftrightarrow>
           (\<forall>x \<in> set (lg_descriptor_statuses X (db_dbname' d) (exist_lg_list d) (h, repairers d)).
              ok x))
      \<and> (\<exists>es. h' = h @ es
           \<and> s = last_error OK (pick descriptor_error es)
           \<and> (ok s \<longleftrightarrow> pick descriptor_error es = [])
           \<and> pick descriptor_error es =
               filter (\<lambda>e. \<not> ok (snd e))
                 (zip (exist_lg_list d)
                    (lg_descriptor_statuses X (db_dbname' d) (exist_lg_list d) (h, repairers d)))
           \<and> pick temp_created es =
               map (\<lambda>lg. TempFileName X (dbname' (repairers d ! unat lg)) 1) (exist_lg_list d))
      \<and> (\<forall>st0 s1 h1 d1 st2.
            DB_FindFiles X st0 = Inr (s1, h1, d1) \<and> ok s1 \<and>
            DB_ExtractMetaData X (h1, d1) = Inr st2 \<and>
            ConvertLogFilesToTables X st2 = Inr (h, d) \<longrightarrow>
            Run X st0 = Inr (s, h', d')))"
proof -
  let ?ss = "lg_descriptor_statuses X (db_dbname' d) (exist_lg_list d) (h, repairers d)"
  have B: "s = last_failure ?ss \<and> (ok s \<longleftrightarrow> (\<forall>x \<in> set ?ss. ok x))
      \<and> (\<exists>es. h' = h @ es
           \<and> s = last_error OK (pick descriptor_error es)
           \<and> (ok s \<longleftrightarrow> pick descriptor_error es = [])
           \<and> pick descriptor_error es = filter (\<lambda>e. \<not> ok (snd e)) (zip (exist_lg_list d) ?ss)
           \<and> pick temp_created es =
               map (\<lambda>lg. TempFileName X (dbname' (repairers d ! unat lg)) 1) (exist_lg_list d))
      \<and> (\<forall>st0 s1 h1 d1 st2.
            DB_FindFiles X st0 = Inr (s1, h1, d1) \<and> ok s1 \<and>
            DB_ExtractMetaData X (h1, d1) = Inr st2 \<and>
            ConvertLogFilesToTables X st2 = Inr (h, d) \<longrightarrow>
            Run X st0 = Inr (s, h', d'))"
    if run: "DB_WriteDescriptor X (h, d) = Inr (s, h', d')" for s h' d'
  proof -
    from run have f: "fold_fault (DB_WriteDescriptor_lg X) (exist_lg_list d) (OK, h, d) = Inr (s, h', d')"
      by (simp add: DB_WriteDescriptor_def)
    from DB_WriteDescriptor_fold_statuses [OF f] obtain es where
      e: "h' = h @ es" "s = last_error OK (pick descriptor_error es)"
         "pick temp_created es =
            map (\<lambda>lg. TempFileName X (map dbname' (repairers d) ! unat lg) 1) (exist_lg_list d)"
         "\<forall>lg \<in> set (exist_lg_list d). unat lg < length (repairers d)"
         "pick descriptor_error es = filter (\<lambda>e. \<not> ok (snd e)) (zip (exist_lg_list d) ?ss)"
      by blast
    have 0: "s = last_failure ?ss"
      using e(2) last_error_failures [of "exist_lg_list d" ?ss] unfolding e(5) by simp
    have 1: "ok s \<longleftrightarrow> (\<forall>x \<in> set ?ss. ok x)"
      unfolding 0 by (rule ok_last_failure)
    have m: "map snd (filter (\<lambda>e. \<not> ok (snd e)) (zip (exist_lg_list d) ?ss)) = filter (\<lambda>s. \<not> ok s) ?ss"
      by (rule map_snd_failures) simp
    have 2: "ok s \<longleftrightarrow> pick descriptor_error es = []"
    proof -
      have "pick descriptor_error es = [] \<longleftrightarrow> filter (\<lambda>s. \<not> ok s) ?ss = []"
        unfolding e(5) using m by (metis map_is_Nil_conv)
      then show ?thesis using 1 by (auto simp add: filter_empty_conv)
    qed
    have 3: "map (\<lambda>lg. TempFileName X (map dbname' (repairers d) ! unat lg) 1) (exist_lg_list d)
           = map (\<lambda>lg. TempFileName X (dbname' (repairers d ! unat lg)) 1) (exist_lg_list d)"
      using e(4) by simp
    have 4: "Run X st0 = Inr (s, h', d')"
      if "DB_FindFiles X st0 = Inr (s1, h1, d1)" "ok s1" "DB_ExtractMetaData X (h1, d1) = Inr st2"
         "ConvertLogFilesToTables X st2 = Inr (h, d)" for st0 s1 h1 d1 st2
      using that run by (simp add: Run_def)
    have 5: "\<exists>es. h' = h @ es
           \<and> s = last_error OK (pick descriptor_error es)
           \<and> (ok s \<longleftrightarrow> pick descriptor_error es = [])
           \<and> pick descriptor_error es = filter (\<lambda>e. \<not> ok (snd e)) (zip (exist_lg_list d) ?ss)
           \<and> pick temp_created es =
               map (\<lambda>lg. TempFileName X (dbname' (repairers d ! unat lg)) 1) (exist_lg_list d)"
      using e(1,2,3,5) 2 3 by (intro exI [of _ es]) simp
    show ?thesis using 0 1 4 5 by blast
  qed
  show ?thesis
    using DB_WriteDescriptor_total [of d X h] B by blast
qed

lemma new_DBRepairer_two_lgs:
  "new_DBRepairer quiet ''db'' (Some [0, 1]) [] =
     Inr ([ECreateDir ''db'', ESanitizeOptions ''db/0'', ELog (LogCreateTableCache ''db/0''),
           ESanitizeOptions ''db/1'', ELog (LogCreateTableCache ''db/1'')], two_lgs)"
  by (simp add: new_DBRepairer_def InitDefaultOptions_def construct_Repairer_def quiet_def
        two_lgs_def digit_name_def)

lemma two_failures_find:
  "DB_FindFiles two_failures (h, two_lgs) =
     Inr (OK, h @ [EGetChildren ''db'', EGetChildren ''db/0'', EGetChildren ''db/1''], two_lgs)"
  by (simp add: DB_FindFiles_def DB_FindFiles_name_def DB_FindFiles_lg_def FindFiles_def
        FindFiles_name_def two_failures_def quiet_def two_lgs_def new_Repairer_def at_index_def
        Let_def)

lemma two_failures_extract: "DB_ExtractMetaData two_failures (h, two_lgs) = Inr (h, two_lgs)"
  by (simp add: DB_ExtractMetaData_def DB_ExtractMetaData_lg_def ExtractMetaData_def
        two_lgs_def new_Repairer_def at_index_def Let_def)

lemma two_failures_convert: "ConvertLogFilesToTables two_failures (h, two_lgs) = Inr (h, two_lgs)"
  by (simp add: ConvertLogFilesToTables_def two_lgs_def)

theorem DB_WriteDescriptor_last_error_witness:
  "lg_descriptor_statuses two_failures ''db'' [0, 1]
      ([EGetChildren ''db'', EGetChildren ''db/0'', EGetChildren ''db/1''], repairers two_lgs)
     = [IOError ''db/0/1.dbtmp'' ''first'', Corruption ''db/1/1.dbtmp'' ''second'']
   \<and> last_failure [IOError ''db/0/1.dbtmp'' ''first'', Corruption ''db/1/1.dbtmp'' ''second'']
     = Corruption ''db/1/1.dbtmp'' ''second''
   \<and> Run two_failures ([], two_lgs) =
     Inr (Corruption ''db/1/1.dbtmp'' ''second'',
          [EGetChildren ''db'', EGetChildren ''db/0'', EGetChildren ''db/1'',
           ENewWritableFile ''db/0/1.dbtmp'',
           ELog (LogWriteDescriptorError ''db'' 0 (IOError ''db/0/1.dbtmp'' ''first'')),
           ENewWritableFile ''db/1/1.dbtmp'',
           ELog (LogWriteDescriptorError ''db'' 1 (Corruption ''db/1/1.dbtmp'' ''second''))],
          two_lgs)
   \<and> (\<exists>s h' d'. DB_WriteDescriptor two_failures ([], two_lgs) = Inr (s, h', d'))"
proof -
  let ?h = "[EGetChildren ''db'', EGetChildren ''db/0'', EGetChildren ''db/1'']"
  have run: "DB_WriteDescriptor two_failures (?h, two_lgs) =
     Inr (Corruption ''db/1/1.dbtmp'' ''second'',
          ?h @ [ENewWritableFile ''db/0/1.dbtmp'',
           ELog (LogWriteDescriptorError ''db'' 0 (IOError ''db/0/1.dbtmp'' ''first'')),
           ENewWritableFile ''db/1/1.dbtmp'',
           ELog (LogWriteDescriptorError ''db'' 1 (Corruption ''db/1/1.dbtmp'' ''second''))],
          two_lgs)"
    by (simp add: DB_WriteDescriptor_def DB_WriteDescriptor_lg_def WriteDescriptor_def
          two_failures_def quiet_def two_lgs_def new_Repairer_def at_index_def Let_def
          digit_name_def)
  have ss: "lg_descriptor_statuses two_failures ''db'' [0, 1] (?h, repairers two_lgs)
     = [IOError ''db/0/1.dbtmp'' ''first'', Corruption ''db/1/1.dbtmp'' ''second'']"
    by (simp add: WriteDescriptor_def two_failures_def quiet_def two_lgs_def new_Repairer_def
          Let_def digit_name_def)
  have sel: "db_dbname' two_lgs = ''db''" "exist_lg_list two_lgs = [0, 1]"
    "length (repairers two_lgs) = 2"
    by (simp_all add: two_lgs_def)
  note T = DB_WriteDescriptor_last_error [of two_lgs two_failures ?h, THEN conjunct2, rule_format, OF run]
  have a: "last_failure [IOError ''db/0/1.dbtmp'' ''first'', Corruption ''db/1/1.dbtmp'' ''second'']
     = Corruption ''db/1/1.dbtmp'' ''second''"
    using T [THEN conjunct1] by (simp only: sel ss)
  have b: "Run two_failures ([], two_lgs) =
     Inr (Corruption ''db/1/1.dbtmp'' ''second'',
          ?h @ [ENewWritableFile ''db/0/1.dbtmp'',
           ELog (LogWriteDescriptorError ''db'' 0 (IOError ''db/0/1.dbtmp'' ''first'')),
           ENewWritableFile ''db/1/1.dbtmp'',
           ELog (LogWriteDescriptorError ''db'' 1 (Corruption ''db/1/1.dbtmp'' ''second''))],
          two_lgs)"
    using T [THEN conjunct2, THEN conjunct2, THEN conjunct2, rule_format,
             of "([], two_lgs)" OK ?h two_lgs "(?h, two_lgs)"]
      two_failures_find [of "[]"] two_failures_extract [of ?h] two_failures_convert [of ?h]
    by simp
  have c: "\<exists>s h' d'. DB_WriteDescriptor two_failures ([], two_lgs) = Inr (s, h', d')"
    using DB_WriteDescriptor_last_error [of two_lgs two_failures "[]", THEN conjunct1]
    by (simp add: sel)
  show ?thesis using ss a b c by simp
qed

text \<open>
  Against the claim as stated: with two LGs whose installations fail with different
  errors, the repair returns the error of the second LG, not of the first.
\<close>

theorem DB_WriteDescriptor_first_error_counterexample:
  "RepairDB two_failures ''db'' (Some [0, 1]) =
     Inr (Corruption ''db/1/1.dbtmp'' ''second'',
          [ECreateDir ''db'', ESanitizeOptions ''db/0'', ELog (LogCreateTableCache ''db/0''),
           ESanitizeOptions ''db/1'', ELog (LogCreateTableCache ''db/1''),
           EGetChildren ''db'', EGetChildren ''db/0'', EGetChildren ''db/1'',
           ENewWritableFile ''db/0/1.dbtmp'',
           ELog (LogWriteDescriptorError ''db'' 0 (IOError ''db/0/1.dbtmp'' ''first'')),
           ENewWritableFile ''db/1/1.dbtmp'',
           ELog (LogWriteDescriptorError ''db'' 1 (Corruption ''db/1/1.dbtmp'' ''second''))])"
  by (simp add: RepairDB_def new_DBRepairer_def InitDefaultOptions_def construct_Repairer_def Run_def
        DB_FindFiles_def DB_FindFiles_name_def DB_FindFiles_lg_def FindFiles_def FindFiles_name_def
        DB_ExtractMetaData_def DB_ExtractMetaData_lg_def ExtractMetaData_def
        ConvertLogFilesToTables_def
        DB_WriteDescriptor_def DB_WriteDescriptor_lg_def WriteDescriptor_def
        delete_DBRepairer_def
        two_failures_def quiet_def new_Repairer_def at_index_def Let_def digit_name_def)

subsection \<open>Duplicate records\<close>

lemma somes_simps [simp]:
  "somes [] = []" "somes (None # xs) = somes xs" "somes (Some x # xs) = x # somes xs"
  by (simp_all add: somes_def)

lemma pick_insert_events:
  "\<forall>e \<in> set es. insert_event e \<Longrightarrow> pick duplicate_logged es = []"
proof (induction es)
  case Nil
  show ?case by simp
next
  case (Cons e es)
  then have "insert_event e" by simp
  then have "duplicate_logged e = None"
    by (cases e rule: insert_event.cases) simp_all
  then show ?case using Cons by simp
qed

lemma frame_refl [simp]: "frame d d"
  by (simp add: frame_def)

lemma frame_trans: "frame d d1 \<Longrightarrow> frame d1 d2 \<Longrightarrow> frame d d2"
  by (simp add: frame_def)

lemma frame_update:
  "i < length (repairers d) \<Longrightarrow> dbname' r1 = dbname' (repairers d ! i) \<Longrightarrow>
     frame d (d\<lparr>repairers := (repairers d)[i := r1]\<rparr>)"
  by (simp add: frame_def map_update list_update_same_conv)

lemma InsertMemTable_Inr:
  assumes "InsertMemTable X b seq (h, r) = Inr (s, h1, r1)"
  shows "h1 = h @ [EInsertInto (dbname' r) b]" "dbname' r1 = dbname' r"
    "max_sequence' r < seq" "max_sequence' r1 = seq + Count b - 1"
    "s = InsertInto X b"
  using assms by (auto simp: InsertMemTable_def Let_def split: if_splits)

lemma insert_batches_trace:
  "insert_batches X log seq i bs (h, c, d) = Inr (h', c', d') \<Longrightarrow>
     (\<exists>es. h' = h @ es \<and> (\<forall>e \<in> set es. insert_event e) \<and> pick inserted es = somes bs)
     \<and> frame d d'"
proof (induction bs arbitrary: i h c d)
  case Nil
  then show ?case by simp
next
  case (Cons x bs)
  show ?case
  proof (cases x)
    case None
    then show ?thesis using Cons by simp
  next
    case (Some b)
    have inb: "i < length (repairers d)"
      using Cons.prems Some by (auto simp: at_index_def split: if_splits)
    let ?r = "repairers d ! i"
    obtain s h1 r1 where im: "InsertMemTable X b seq (h, ?r) = Inr (s, h1, r1)"
      using Cons.prems Some inb
      by (cases "InsertMemTable X b seq (h, ?r)") (auto simp: at_index_def)
    note f = InsertMemTable_Inr [OF im]
    let ?d1 = "d\<lparr>repairers := (repairers d)[i := r1]\<rparr>"
    let ?h2 = "if ok s then h1 else h1 @ [ELog (LogInsertIgnoring (db_dbname' d) i log s)]"
    let ?c2 = "if ok s then c + sint (ucast (Count b) :: u32) else c"
    have rest: "insert_batches X log seq (Suc i) bs (?h2, ?c2, ?d1) = Inr (h', c', d')"
      using Cons.prems Some inb im by (auto simp: at_index_def Let_def split: if_splits)
    from Cons.IH [OF rest] obtain es where
      es: "h' = ?h2 @ es" "\<forall>e \<in> set es. insert_event e" "pick inserted es = somes bs"
      and fr: "frame ?d1 d'"
      by blast
    have fr1: "frame d ?d1"
      using inb f(2) by (rule frame_update)
    let ?es = "(if ok s then [EInsertInto (dbname' ?r) b]
                else [EInsertInto (dbname' ?r) b, ELog (LogInsertIgnoring (db_dbname' d) i log s)]) @ es"
    have "h' = h @ ?es" using es(1) f(1) by simp
    moreover have "\<forall>e \<in> set ?es. insert_event e" using es(2) by simp
    moreover have "pick inserted ?es = somes (x # bs)" using es(3) Some by simp
    ultimately show ?thesis using frame_trans [OF fr1 fr] by blast
  qed
qed

lemma replay_record_duplicate:
  assumes "12 \<le> rec_size rcd" "Sequence (rec_batch rcd) \<le> last_sequence' d"
  shows "replay_record X log rcd (h, c, d) =
     Inr (None, h @ [ELog (LogDuplicateRecord (db_dbname' d) (Sequence (rec_batch rcd))
                      (Sequence (rec_batch rcd) + Count (rec_batch rcd) - 1))], c, d)"
  using assms by (simp add: replay_record_def Let_def)

lemma replay_record_replayed:
  assumes sz: "12 \<le> rec_size rcd" and above: "last_sequence' d < Sequence (rec_batch rcd)"
    and res: "replay_record X log rcd (h, c, d) = Inr (None, h', c', d')"
  shows "\<exists>es. h' = h @ es \<and> (\<forall>e \<in> set es. insert_event e)
           \<and> pick inserted es = somes (lg_batches X (length (exist_lg_list d)) (rec_batch rcd))"
    and "last_sequence' d' = Sequence (rec_batch rcd) + Count (rec_batch rcd) - 1"
    and "frame d (d'\<lparr>last_sequence' := last_sequence' d\<rparr>)"
proof -
  let ?b = "rec_batch rcd"
  let ?n = "length (exist_lg_list d)"
  have nd: "\<not> Sequence ?b \<le> last_sequence' d" "\<not> rec_size rcd < 12"
    using sz above by auto
  obtain h1 c1 d1 where
    ins: "insert_batches X log (Sequence ?b) 0 (lg_batches X ?n ?b) (h, c, d) = Inr (h1, c1, d1)"
    and fin: "h' = h1" "c' = c1" "d' = d1\<lparr>last_sequence' := Sequence ?b + Count ?b - 1\<rparr>"
  proof (cases "?n > 1")
    case True
    obtain st bs where sep: "SeperateLocalityGroup X ?b ?n = (st, bs)"
      by (cases "SeperateLocalityGroup X ?b ?n")
    have okst: "ok st" and len: "\<not> length bs < ?n"
      using res nd True sep
      by (auto simp: replay_record_def Let_def stamp_batches_def split: if_splits)
    have lb: "lg_batches X ?n ?b =
        map (map_option (\<lambda>b'. b'\<lparr>Sequence := Sequence ?b\<rparr>)) (take ?n bs) @ drop ?n bs"
      using True sep by (simp add: lg_batches_def)
    show ?thesis
    proof (cases "insert_batches X log (Sequence ?b) 0 (lg_batches X ?n ?b) (h, c, d)")
      case (Inl e)
      then show ?thesis
        using res nd True sep okst len lb
        by (simp add: replay_record_def Let_def stamp_batches_def)
    next
      case (Inr x)
      obtain h1 c1 d1 where x: "x = (h1, c1, d1)" by (cases x)
      show ?thesis
        using res nd True sep okst len lb Inr x that
        by (simp add: replay_record_def Let_def stamp_batches_def)
    qed
  next
    case False
    have n1: "?n \<noteq> 0"
      using res nd False by (auto simp: replay_record_def Let_def split: if_splits)
    have lb: "lg_batches X ?n ?b = [Some ?b]"
      using False by (simp add: lg_batches_def)
    show ?thesis
    proof (cases "insert_batches X log (Sequence ?b) 0 [Some ?b] (h, c, d)")
      case (Inl e)
      then show ?thesis
        using res nd False n1 by (simp add: replay_record_def Let_def)
    next
      case (Inr x)
      obtain h1 c1 d1 where x: "x = (h1, c1, d1)" by (cases x)
      show ?thesis
        using res nd False n1 lb Inr x that
        by (simp add: replay_record_def Let_def)
    qed
  qed
  note t = insert_batches_trace [OF ins]
  show "\<exists>es. h' = h @ es \<and> (\<forall>e \<in> set es. insert_event e)
           \<and> pick inserted es = somes (lg_batches X ?n ?b)"
    using t fin by simp
  show "last_sequence' d' = Sequence ?b + Count ?b - 1"
    using fin by simp
  show "frame d (d'\<lparr>last_sequence' := last_sequence' d\<rparr>)"
    using t fin by (simp add: frame_def)
qed

lemma slot_simps [simp]:
  "slot [] i = None" "slot (x # xs) 0 = x" "slot (x # xs) (Suc i) = slot xs i"
  by (simp_all add: slot_def)

lemma InsertMemTable_eq:
  "InsertMemTable X b seq (h, r) =
     (if max_sequence' r < seq
      then Inr (InsertInto X b, h @ [EInsertInto (dbname' r) b], with_batch b seq r)
      else Inl AssertionFailed)"
  by (simp add: InsertMemTable_def with_batch_def Let_def)

lemma insert_batches_Inr_iff:
  "(\<exists>st'. insert_batches X log seq i bs (h, c, d) = Inr st') \<longleftrightarrow>
     (\<forall>j < length bs. bs ! j \<noteq> None \<longrightarrow>
        i + j < length (repairers d) \<and> max_sequence' (repairers d ! (i + j)) < seq)"
proof (induction bs arbitrary: i h c d)
  case Nil
  show ?case by simp
next
  case (Cons x bs)
  show ?case
  proof (cases x)
    case None
    have "(\<exists>st'. insert_batches X log seq i (x # bs) (h, c, d) = Inr st') \<longleftrightarrow>
          (\<exists>st'. insert_batches X log seq (Suc i) bs (h, c, d) = Inr st')"
      using None by simp
    also have "\<dots> \<longleftrightarrow> (\<forall>j < length bs. bs ! j \<noteq> None \<longrightarrow>
        Suc i + j < length (repairers d) \<and> max_sequence' (repairers d ! (Suc i + j)) < seq)"
      by (rule Cons.IH)
    also have "\<dots> \<longleftrightarrow> (\<forall>j < length (x # bs). (x # bs) ! j \<noteq> None \<longrightarrow>
        i + j < length (repairers d) \<and> max_sequence' (repairers d ! (i + j)) < seq)"
      using None by (auto simp: less_Suc_eq_0_disj)
    finally show ?thesis .
  next
    case (Some b)
    show ?thesis
    proof (cases "i < length (repairers d) \<and> max_sequence' (repairers d ! i) < seq")
      case False
      have "\<not> (\<exists>st'. insert_batches X log seq i (x # bs) (h, c, d) = Inr st')"
        using False Some by (auto simp: at_index_def InsertMemTable_eq)
      moreover have "\<not> (\<forall>j < length (x # bs). (x # bs) ! j \<noteq> None \<longrightarrow>
        i + j < length (repairers d) \<and> max_sequence' (repairers d ! (i + j)) < seq)"
        using False Some by (auto intro!: exI [of _ 0])
      ultimately show ?thesis by blast
    next
      case True
      let ?r = "repairers d ! i"
      let ?d1 = "d\<lparr>repairers := (repairers d)[i := with_batch b seq ?r]\<rparr>"
      let ?h1 = "h @ [EInsertInto (dbname' ?r) b]"
      let ?h2 = "if ok (InsertInto X b) then ?h1
                 else ?h1 @ [ELog (LogInsertIgnoring (db_dbname' d) i log (InsertInto X b))]"
      let ?c2 = "if ok (InsertInto X b) then c + sint (ucast (Count b) :: u32) else c"
      have step: "insert_batches X log seq i (x # bs) (h, c, d) =
                  insert_batches X log seq (Suc i) bs (?h2, ?c2, ?d1)"
        using True Some by (simp add: at_index_def InsertMemTable_eq Let_def)
      have "(\<exists>st'. insert_batches X log seq (Suc i) bs (?h2, ?c2, ?d1) = Inr st') \<longleftrightarrow>
            (\<forall>j < length bs. bs ! j \<noteq> None \<longrightarrow>
               Suc i + j < length (repairers ?d1) \<and> max_sequence' (repairers ?d1 ! (Suc i + j)) < seq)"
        by (rule Cons.IH)
      also have "\<dots> \<longleftrightarrow> (\<forall>j < length bs. bs ! j \<noteq> None \<longrightarrow>
               Suc i + j < length (repairers d) \<and> max_sequence' (repairers d ! (Suc i + j)) < seq)"
        by simp
      also have "\<dots> \<longleftrightarrow> (\<forall>j < length (x # bs). (x # bs) ! j \<noteq> None \<longrightarrow>
        i + j < length (repairers d) \<and> max_sequence' (repairers d ! (i + j)) < seq)"
        using True by (auto simp: less_Suc_eq_0_disj)
      finally show ?thesis unfolding step .
    qed
  qed
qed

lemma insert_batches_repairers:
  "insert_batches X log seq i bs (h, c, d) = Inr (h', c', d') \<Longrightarrow>
     length (repairers d') = length (repairers d) \<and>
     (\<forall>k < length (repairers d).
        repairers d' ! k =
          (case (if i \<le> k then slot bs (k - i) else None) of
             None \<Rightarrow> repairers d ! k
           | Some b \<Rightarrow> with_batch b seq (repairers d ! k)))"
proof (induction bs arbitrary: i h c d)
  case Nil
  then show ?case by simp
next
  case (Cons x bs)
  show ?case
  proof (cases x)
    case None
    have r: "insert_batches X log seq (Suc i) bs (h, c, d) = Inr (h', c', d')"
      using Cons.prems None by simp
    note ih = Cons.IH [OF r]
    have "repairers d' ! k =
          (case (if i \<le> k then slot (x # bs) (k - i) else None) of
             None \<Rightarrow> repairers d ! k
           | Some b \<Rightarrow> with_batch b seq (repairers d ! k))"
      if k: "k < length (repairers d)" for k
    proof (cases "Suc i \<le> k")
      case True
      then have "k - i = Suc (k - Suc i)" by simp
      then have "slot (x # bs) (k - i) = slot bs (k - Suc i)"
        by simp
      then show ?thesis using ih k True by simp
    next
      case False
      then have "(if i \<le> k then slot (x # bs) (k - i) else None) = None"
        using None by (cases "k = i") auto
      then show ?thesis using ih k False by simp
    qed
    then show ?thesis using ih by simp
  next
    case (Some b)
    have inb: "i < length (repairers d)"
      using Cons.prems Some by (auto simp: at_index_def split: if_splits)
    have mx: "max_sequence' (repairers d ! i) < seq"
      using Cons.prems Some inb by (auto simp: at_index_def InsertMemTable_eq split: if_splits)
    let ?r = "repairers d ! i"
    let ?d1 = "d\<lparr>repairers := (repairers d)[i := with_batch b seq ?r]\<rparr>"
    let ?h1 = "h @ [EInsertInto (dbname' ?r) b]"
    let ?h2 = "if ok (InsertInto X b) then ?h1
               else ?h1 @ [ELog (LogInsertIgnoring (db_dbname' d) i log (InsertInto X b))]"
    let ?c2 = "if ok (InsertInto X b) then c + sint (ucast (Count b) :: u32) else c"
    have r: "insert_batches X log seq (Suc i) bs (?h2, ?c2, ?d1) = Inr (h', c', d')"
      using Cons.prems Some inb mx
      by (cases "ok (InsertInto X b)") (simp_all add: at_index_def InsertMemTable_eq Let_def)
    note ih = Cons.IH [OF r]
    have len: "length (repairers d') = length (repairers d)"
      using ih by simp
    have "repairers d' ! k =
          (case (if i \<le> k then slot (x # bs) (k - i) else None) of
             None \<Rightarrow> repairers d ! k
           | Some b \<Rightarrow> with_batch b seq (repairers d ! k))"
      if k: "k < length (repairers d)" for k
    proof (cases "Suc i \<le> k")
      case True
      then have "k - i = Suc (k - Suc i)" by simp
      then have "slot (x # bs) (k - i) = slot bs (k - Suc i)"
        by simp
      moreover have "repairers ?d1 ! k = repairers d ! k"
        using True by simp
      ultimately show ?thesis using ih k True by (auto split: option.splits)
    next
      case False
      have a: "repairers d' ! k = repairers ?d1 ! k"
        using ih k False by (auto split: option.splits)
      show ?thesis
      proof (cases "k = i")
        case True
        then show ?thesis using a Some inb by simp
      next
        case False
        then have "k < i" using \<open>\<not> Suc i \<le> k\<close> by simp
        then show ?thesis using a by simp
      qed
    qed
    then show ?thesis using len by simp
  qed
qed

lemma replay_record_above:
  assumes sz: "12 \<le> rec_size rcd" and above: "last_sequence' d < Sequence (rec_batch rcd)"
  shows "replay_record X log rcd (h, c, d) =
     (let b = rec_batch rcd; n = length (exist_lg_list d)
      in if 1 < n \<and> \<not> ok (fst (SeperateLocalityGroup X b n))
         then Inr (Some (fst (SeperateLocalityGroup X b n)), h, c, d)
         else if n = 0 \<or> (1 < n \<and> length (snd (SeperateLocalityGroup X b n)) < n)
         then Inl OutOfBounds
         else bind_fault (insert_batches X log (Sequence b) 0 (lg_batches X n b) (h, c, d))
                (\<lambda>(h1, c1, d1).
                   Inr (None, h1, c1, d1\<lparr>last_sequence' := Sequence b + Count b - 1\<rparr>)))"
proof -
  have nd: "\<not> Sequence (rec_batch rcd) \<le> last_sequence' d" "\<not> rec_size rcd < 12"
    using sz above by auto
  show ?thesis
    using nd
    by (auto simp add: replay_record_def Let_def stamp_batches_def lg_batches_def
          split: prod.splits)
qed

lemma slots_ready_single:
  assumes "length (exist_lg_list d) = 1" "repairers d \<noteq> []"
    "max_sequence' (repairers d ! 0) \<le> last_sequence' d" "last_sequence' d < Sequence b"
  shows "slots_ready X d b"
  using assms by (auto simp add: slots_ready_def lg_batches_def)

text \<open>
  Claim C1, as amended. A record of at least 12 bytes with header (sequence, count) is
  dropped as a duplicate (one log line, nothing else changes) exactly when its sequence
  is at most \<open>last_sequence_\<close>; the count plays no part in the test. A record whose
  sequence is above \<open>last_sequence_\<close> is never dropped. When the separation into LGs
  fails, the function returns that status and nothing is inserted. Otherwise the record
  is replayed when every slot that holds a sub-batch belongs to a repairer of the vector
  whose \<open>max_sequence_\<close> is below the sequence (for a single LG it is enough that its
  \<open>max_sequence_\<close> is at most \<open>last_sequence_\<close>), and the process stops, at the assertion
  of \<open>InsertMemTable\<close> or at an index out of bounds, when not. A replayed record gives its
  sub-batches (the batch itself for a single LG) to the memtables of their LGs, in the
  order of the slots, logs no duplicate, leaves the other LGs as they were, and sets
  \<open>last_sequence_\<close> to \<open>sequence + count - 1\<close> in 64-bit arithmetic.
\<close>

theorem duplicate_exactly_when_sequence_not_above:
  assumes sz: "12 \<le> rec_size rcd"
  shows "(replay_record X log rcd (h, c, d) =
            Inr (None, h @ [ELog (LogDuplicateRecord (db_dbname' d) (Sequence (rec_batch rcd))
                              (Sequence (rec_batch rcd) + Count (rec_batch rcd) - 1))], c, d)
          \<longleftrightarrow> Sequence (rec_batch rcd) \<le> last_sequence' d)
       \<and> (last_sequence' d < Sequence (rec_batch rcd) \<longrightarrow>
            (1 < length (exist_lg_list d) \<and>
             \<not> ok (fst (SeperateLocalityGroup X (rec_batch rcd) (length (exist_lg_list d)))) \<longrightarrow>
               replay_record X log rcd (h, c, d) =
                 Inr (Some (fst (SeperateLocalityGroup X (rec_batch rcd) (length (exist_lg_list d)))),
                      h, c, d))
          \<and> ((1 < length (exist_lg_list d) \<longrightarrow>
                 ok (fst (SeperateLocalityGroup X (rec_batch rcd) (length (exist_lg_list d))))) \<longrightarrow>
               (slots_ready X d (rec_batch rcd) \<longrightarrow>
                  (\<exists>h' c' d'. replay_record X log rcd (h, c, d) = Inr (None, h', c', d')))
             \<and> (\<not> slots_ready X d (rec_batch rcd) \<longrightarrow>
                  (\<exists>f. replay_record X log rcd (h, c, d) = Inl f)))
          \<and> (length (exist_lg_list d) = 1 \<and> repairers d \<noteq> [] \<and>
              max_sequence' (repairers d ! 0) \<le> last_sequence' d \<longrightarrow>
                (\<exists>h' c' d'. replay_record X log rcd (h, c, d) = Inr (None, h', c', d')))
          \<and> (\<forall>h' c' d'. replay_record X log rcd (h, c, d) = Inr (None, h', c', d') \<longrightarrow>
               (\<exists>es. h' = h @ es \<and> pick duplicate_logged es = []
                   \<and> pick inserted es =
                       somes (lg_batches X (length (exist_lg_list d)) (rec_batch rcd)))
               \<and> last_sequence' d' = Sequence (rec_batch rcd) + Count (rec_batch rcd) - 1
               \<and> length (repairers d') = length (repairers d)
               \<and> (\<forall>k < length (repairers d).
                    repairers d' ! k =
                      (case slot (lg_batches X (length (exist_lg_list d)) (rec_batch rcd)) k of
                         None \<Rightarrow> repairers d ! k
                       | Some b \<Rightarrow> with_batch b (Sequence (rec_batch rcd)) (repairers d ! k)))))"
proof -
  let ?b = "rec_batch rcd"
  let ?n = "length (exist_lg_list d)"
  let ?sep = "SeperateLocalityGroup X ?b ?n"
  let ?lgb = "lg_batches X ?n ?b"
  let ?dup = "Inr (None, h @ [ELog (LogDuplicateRecord (db_dbname' d) (Sequence ?b)
                              (Sequence ?b + Count ?b - 1))], c, d)"
  let ?ins = "insert_batches X log (Sequence ?b) 0 ?lgb (h, c, d)"
  have eq: "replay_record X log rcd (h, c, d) =
     (if 1 < ?n \<and> \<not> ok (fst ?sep) then Inr (Some (fst ?sep), h, c, d)
      else if ?n = 0 \<or> (1 < ?n \<and> length (snd ?sep) < ?n) then Inl OutOfBounds
      else bind_fault ?ins
             (\<lambda>(h1, c1, d1). Inr (None, h1, c1, d1\<lparr>last_sequence' := Sequence ?b + Count ?b - 1\<rparr>)))"
    if "last_sequence' d < Sequence ?b"
    using replay_record_above [OF sz that, of X log h c] by (simp add: Let_def)
  have ready: "slots_ready X d ?b \<longleftrightarrow>
      0 < ?n \<and> (1 < ?n \<longrightarrow> ?n \<le> length (snd ?sep)) \<and> (\<exists>st'. ?ins = Inr st')"
    using insert_batches_Inr_iff [of X log "Sequence ?b" 0 ?lgb h c d]
    by (simp add: slots_ready_def Let_def)
  have 2: "(\<exists>es. h' = h @ es \<and> pick duplicate_logged es = []
                   \<and> pick inserted es = somes ?lgb)
               \<and> last_sequence' d' = Sequence ?b + Count ?b - 1
               \<and> length (repairers d') = length (repairers d)
               \<and> (\<forall>k < length (repairers d).
                    repairers d' ! k =
                      (case slot ?lgb k of
                         None \<Rightarrow> repairers d ! k
                       | Some b \<Rightarrow> with_batch b (Sequence ?b) (repairers d ! k)))"
    if ab: "last_sequence' d < Sequence ?b"
      and r: "replay_record X log rcd (h, c, d) = Inr (None, h', c', d')"
    for h' c' d'
  proof -
    obtain h1 c1 d1 where ins: "?ins = Inr (h1, c1, d1)"
      and d': "d' = d1\<lparr>last_sequence' := Sequence ?b + Count ?b - 1\<rparr>"
      using r unfolding eq [OF ab]
      by (cases ?ins) (auto split: if_splits)
    note rp = insert_batches_repairers [OF ins]
    show ?thesis
      using replay_record_replayed(1,2) [OF sz ab r] pick_insert_events rp d'
      by (simp, blast)
  qed
  have 1: "replay_record X log rcd (h, c, d) = ?dup \<longleftrightarrow> Sequence ?b \<le> last_sequence' d"
  proof
    assume r: "replay_record X log rcd (h, c, d) = ?dup"
    show "Sequence ?b \<le> last_sequence' d"
    proof (rule ccontr)
      assume "\<not> Sequence ?b \<le> last_sequence' d"
      then have "last_sequence' d < Sequence ?b" by simp
      from 2 [OF this r] obtain es where
        "h @ [ELog (LogDuplicateRecord (db_dbname' d) (Sequence ?b) (Sequence ?b + Count ?b - 1))]
           = h @ es" "pick duplicate_logged es = []"
        by blast
      then show False by auto
    qed
  next
    assume "Sequence ?b \<le> last_sequence' d"
    then show "replay_record X log rcd (h, c, d) = ?dup"
      by (rule replay_record_duplicate [OF sz])
  qed
  have 3: "replay_record X log rcd (h, c, d) = Inr (Some (fst ?sep), h, c, d)"
    if "last_sequence' d < Sequence ?b" "1 < ?n \<and> \<not> ok (fst ?sep)"
    using eq [OF that(1)] that(2) by simp
  have 4: "\<exists>h' c' d'. replay_record X log rcd (h, c, d) = Inr (None, h', c', d')"
    if ab: "last_sequence' d < Sequence ?b" and okk: "1 < ?n \<longrightarrow> ok (fst ?sep)"
      and rd: "slots_ready X d ?b"
  proof -
    obtain h1 c1 d1 where ins: "?ins = Inr (h1, c1, d1)"
      using rd ready by (metis prod_cases3)
    have "replay_record X log rcd (h, c, d) =
            Inr (None, h1, c1, d1\<lparr>last_sequence' := Sequence ?b + Count ?b - 1\<rparr>)"
      using eq [OF ab] okk rd ready ins by auto
    then show ?thesis by blast
  qed
  have 5: "\<exists>f. replay_record X log rcd (h, c, d) = Inl f"
    if ab: "last_sequence' d < Sequence ?b" and okk: "1 < ?n \<longrightarrow> ok (fst ?sep)"
      and rd: "\<not> slots_ready X d ?b"
  proof (cases "?n = 0 \<or> (1 < ?n \<and> length (snd ?sep) < ?n)")
    case True
    then show ?thesis using eq [OF ab] okk by auto
  next
    case False
    then have "\<not> (\<exists>st'. ?ins = Inr st')"
      using rd ready by auto
    then obtain f where "?ins = Inl f"
      by (cases ?ins) auto
    then show ?thesis using eq [OF ab] okk False by auto
  qed
  have 6: "\<exists>h' c' d'. replay_record X log rcd (h, c, d) = Inr (None, h', c', d')"
    if ab: "last_sequence' d < Sequence ?b"
      and one: "?n = 1 \<and> repairers d \<noteq> [] \<and> max_sequence' (repairers d ! 0) \<le> last_sequence' d"
    using 4 [OF ab] slots_ready_single [of d ?b X] one ab by simp
  show ?thesis using 1 2 3 4 5 6 by blast
qed

theorem duplicate_exactly_when_sequence_not_above_witness:
  "replay_record quiet 5 (batch_record 50 3) ([], 0, lg0_at_100) =
     Inr (None, [ELog (LogDuplicateRecord ''db'' 50 52)], 0, lg0_at_100)
   \<and> (\<exists>h' c' d'. replay_record quiet 5 (batch_record 200 1) ([], 0, lg0_at_100) =
                    Inr (None, h', c', d')
         \<and> pick inserted h' = [\<lparr>Sequence = 200, Count = 1, payload = ''put''\<rparr>]
         \<and> pick duplicate_logged h' = []
         \<and> last_sequence' d' = 200
         \<and> repairers d' =
             [with_batch \<lparr>Sequence = 200, Count = 1, payload = ''put''\<rparr> 200
                ((new_Repairer ''db/0'')\<lparr>max_sequence' := 100\<rparr>)])
   \<and> \<not> slots_ready wrapping_log after_wrap (rec_batch (batch_record 1 1))
   \<and> (\<exists>f. replay_record wrapping_log 5 (batch_record 1 1) ([], 3, after_wrap) = Inl f)"
proof -
  have sz: "12 \<le> rec_size (batch_record s n)" for s n
    by (simp add: batch_record_def)
  have a: "replay_record quiet 5 (batch_record 50 3) ([], 0, lg0_at_100) =
     Inr (None, [ELog (LogDuplicateRecord ''db'' 50 52)], 0, lg0_at_100)"
    using duplicate_exactly_when_sequence_not_above [OF sz, of quiet 5 50 3 "[]" 0 lg0_at_100]
    by (simp add: batch_record_def lg0_at_100_def)
  have above: "last_sequence' lg0_at_100 < Sequence (rec_batch (batch_record 200 1))"
    by (simp add: batch_record_def lg0_at_100_def)
  note T = duplicate_exactly_when_sequence_not_above
             [OF sz, of quiet 5 200 1 "[]" 0 lg0_at_100, THEN conjunct2, rule_format, OF above]
  have one: "length (exist_lg_list lg0_at_100) = 1 \<and> repairers lg0_at_100 \<noteq> [] \<and>
             max_sequence' (repairers lg0_at_100 ! 0) \<le> last_sequence' lg0_at_100"
    by (simp add: lg0_at_100_def)
  obtain h' c' d' where
    r: "replay_record quiet 5 (batch_record 200 1) ([], 0, lg0_at_100) = Inr (None, h', c', d')"
    using T [THEN conjunct2, THEN conjunct2, THEN conjunct1, rule_format, OF one] by blast
  note D = T [THEN conjunct2, THEN conjunct2, THEN conjunct2, rule_format, OF r]
  have lgb: "lg_batches quiet (length (exist_lg_list lg0_at_100)) (rec_batch (batch_record 200 1))
               = [Some \<lparr>Sequence = 200, Count = 1, payload = ''put''\<rparr>]"
    by (simp add: lg_batches_def lg0_at_100_def batch_record_def)
  have sel: "repairers lg0_at_100 = [(new_Repairer ''db/0'')\<lparr>max_sequence' := 100\<rparr>]"
    "Sequence (rec_batch (batch_record 200 1)) = 200" "Count (rec_batch (batch_record 200 1)) = 1"
    by (simp_all add: lg0_at_100_def batch_record_def)
  have b1: "pick inserted h' = [\<lparr>Sequence = 200, Count = 1, payload = ''put''\<rparr>]"
    "pick duplicate_logged h' = []"
    using D [THEN conjunct1] unfolding lgb by auto
  have b2: "last_sequence' d' = 200"
    using D [THEN conjunct2, THEN conjunct1] by (simp add: sel)
  have len: "length (repairers d') = 1"
    using D [THEN conjunct2, THEN conjunct2, THEN conjunct1] by (simp add: sel)
  have "repairers d' ! 0 =
          with_batch \<lparr>Sequence = 200, Count = 1, payload = ''put''\<rparr> 200
            ((new_Repairer ''db/0'')\<lparr>max_sequence' := 100\<rparr>)"
    using D [THEN conjunct2, THEN conjunct2, THEN conjunct2, rule_format, of 0]
    unfolding lgb by (simp add: sel)
  then have b3: "repairers d' =
             [with_batch \<lparr>Sequence = 200, Count = 1, payload = ''put''\<rparr> 200
                ((new_Repairer ''db/0'')\<lparr>max_sequence' := 100\<rparr>)]"
    using len by (cases "repairers d'") simp_all
  have above2: "last_sequence' after_wrap < Sequence (rec_batch (batch_record 1 1))"
    by (simp add: batch_record_def after_wrap_def)
  have okk: "1 < length (exist_lg_list after_wrap) \<longrightarrow>
     ok (fst (SeperateLocalityGroup wrapping_log (rec_batch (batch_record 1 1))
                (length (exist_lg_list after_wrap))))"
    by (simp add: wrapping_log_def quiet_def)
  have "lg_batches wrapping_log (length (exist_lg_list after_wrap)) (rec_batch (batch_record 1 1)) ! 0
          \<noteq> None"
    "\<not> max_sequence' (repairers after_wrap ! 0) < Sequence (rec_batch (batch_record 1 1))"
    by (simp_all add: lg_batches_def wrapping_log_def quiet_def after_wrap_def batch_record_def)
  moreover have "0 < length (lg_batches wrapping_log (length (exist_lg_list after_wrap))
                               (rec_batch (batch_record 1 1)))"
    by (simp add: lg_batches_def wrapping_log_def quiet_def after_wrap_def batch_record_def)
  ultimately have nr: "\<not> slots_ready wrapping_log after_wrap (rec_batch (batch_record 1 1))"
    unfolding slots_ready_def Let_def by blast
  have c: "\<exists>f. replay_record wrapping_log 5 (batch_record 1 1) ([], 3, after_wrap) = Inl f"
    using duplicate_exactly_when_sequence_not_above
             [OF sz, of wrapping_log 5 1 1 "[]" 3 after_wrap] above2 okk nr
    by blast
  show ?thesis using a r b1 b2 b3 nr c by blast
qed

text \<open>
  Against the claim as stated, with \<open>last_sequence_ = 100\<close>: the record (50, 100) reaches
  up to 149 and is dropped; the record (101, 0) has \<open>sequence + count - 1 = 100\<close> and is
  replayed.
\<close>

theorem duplicate_range_counterexample:
  "replay_record quiet 5 (batch_record 50 100) ([], 0, lg0_at_100) =
     Inr (None, [ELog (LogDuplicateRecord ''db'' 50 149)], 0, lg0_at_100)
   \<and> \<not> ((50 :: u64) + 100 - 1 \<le> last_sequence' lg0_at_100)
   \<and> replay_record quiet 5 (batch_record 101 0) ([], 0, lg0_at_100) =
     Inr (None, [EInsertInto ''db/0'' \<lparr>Sequence = 101, Count = 0, payload = ''put''\<rparr>], 0,
          lg0_at_100\<lparr>repairers :=
                       [(new_Repairer ''db/0'')\<lparr>max_sequence' := 100,
                          mem' := Some [\<lparr>Sequence = 101, Count = 0, payload = ''put''\<rparr>]\<rparr>],
                     last_sequence' := 100\<rparr>)
   \<and> (101 :: u64) + 0 - 1 \<le> last_sequence' lg0_at_100"
  by (simp add: replay_record_def batch_record_def lg0_at_100_def quiet_def new_Repairer_def
        InsertMemTable_def at_index_def Let_def)

subsection \<open>The assertion of InsertMemTable\<close>

lemma wrapping_log_construct:
  "new_DBRepairer wrapping_log ''db'' (Some [0, 1]) [] =
     Inr ([ECreateDir ''db'', ESanitizeOptions ''db/0'', ELog (LogCreateTableCache ''db/0''),
           ESanitizeOptions ''db/1'', ELog (LogCreateTableCache ''db/1'')], two_lgs)"
  by (simp add: new_DBRepairer_def InitDefaultOptions_def construct_Repairer_def wrapping_log_def
        quiet_def two_lgs_def digit_name_def)

lemma wrapping_log_find: "DB_FindFiles wrapping_log (h, two_lgs) =
   Inr (OK, h @ [EGetChildren ''db'', EGetChildren ''db/0'', EGetChildren ''db/1''],
        two_lgs\<lparr>logfiles' := [5], log_number' := 6\<rparr>)"
  by (simp add: DB_FindFiles_def DB_FindFiles_name_def DB_FindFiles_lg_def FindFiles_def
        FindFiles_name_def wrapping_log_def quiet_def two_lgs_def new_Repairer_def at_index_def Let_def)

lemma wrapping_log_extract: "DB_ExtractMetaData wrapping_log (h, two_lgs\<lparr>logfiles' := [5], log_number' := 6\<rparr>) =
   Inr (h, two_lgs\<lparr>logfiles' := [5], log_number' := 6\<rparr>)"
  by (simp add: DB_ExtractMetaData_def DB_ExtractMetaData_lg_def ExtractMetaData_def
        two_lgs_def new_Repairer_def at_index_def Let_def)

lemma wrapping_log_first_record: "replay_record wrapping_log 5 (batch_record 18446744073709551614 3)
     (h, 0, two_lgs\<lparr>logfiles' := [5], log_number' := 6\<rparr>) =
   Inr (None,
        h @ [EInsertInto ''db/0'' \<lparr>Sequence = 18446744073709551614, Count = 1, payload = ''k0''\<rparr>,
             EInsertInto ''db/1'' \<lparr>Sequence = 18446744073709551614, Count = 2, payload = ''k1k2''\<rparr>],
        3, after_wrap)"
  by (simp add: replay_record_def batch_record_def two_lgs_def wrapping_log_def quiet_def
      new_Repairer_def InsertMemTable_def at_index_def stamp_batches_def after_wrap_def Let_def)

lemma wrapping_log_second_record: "replay_record wrapping_log 5 (batch_record 1 1) (h, c, after_wrap) = Inl AssertionFailed"
  by (simp add: replay_record_def batch_record_def wrapping_log_def quiet_def
      new_Repairer_def InsertMemTable_def at_index_def stamp_batches_def after_wrap_def Let_def)

lemma wrapping_log_replay: "ConvertLogFilesToTables wrapping_log (h, two_lgs\<lparr>logfiles' := [5], log_number' := 6\<rparr>)
   = Inl AssertionFailed"
proof -
  have r: "NewSequentialFile wrapping_log h' n =
             (OK, [batch_record 18446744073709551614 3, batch_record 1 1])" for h' n
    by (simp add: wrapping_log_def quiet_def)
  have sel: "db_dbname' two_lgs = ''db''" "exist_lg_list two_lgs = [0, 1]"
    by (simp_all add: two_lgs_def)
  show ?thesis
    by (simp add: ConvertLogFilesToTables_def ConvertLogFilesToTables_log_def ConvertLogToTable_def
          Let_def r wrapping_log_first_record wrapping_log_second_record sel)
qed

text \<open>
  Claim C4. Every \<open>InsertMemTable\<close> sets \<open>max_sequence_\<close> to \<open>s + count(b) - 1\<close> in 64-bit
  arithmetic (\<open>InsertMemTable_Inr\<close> above), but its assertion can fail during a replay
  that starts from scanned tables and applies the duplicate check. With two LGs, the
  first record below leaves \<open>max_sequence_\<close> at \<open>2^64 - 2\<close> and \<open>2^64 - 1\<close> in the LGs, while
  the coordinator's \<open>last_sequence_\<close> wraps around to 0; the second record, with
  sequence 1, passes the duplicate check, and the assertion of LG 0 fails.
\<close>

theorem assertion_fails_after_wrap:
  "RepairDB wrapping_log ''db'' (Some [0, 1]) = Inl AssertionFailed"
  by (simp add: RepairDB_def Run_def wrapping_log_construct wrapping_log_find wrapping_log_extract wrapping_log_replay)

subsection \<open>Indexing the repairers\<close>

lemma DB_ExtractMetaData_lg_step:
  "(length (repairers (snd s)) \<le> unat lg \<longrightarrow> DB_ExtractMetaData_lg X lg s = Inl OutOfBounds) \<and>
   (unat lg < length (repairers (snd s)) \<longrightarrow>
      (\<exists>s'. DB_ExtractMetaData_lg X lg s = Inr s' \<and>
            length (repairers (snd s')) = length (repairers (snd s))))"
  by (cases s) (auto simp: DB_ExtractMetaData_lg_def at_index_def Let_def split: prod.splits)

lemma DB_FindFiles_lg_step:
  "(length (repairers (snd s)) \<le> unat lg \<longrightarrow> DB_FindFiles_lg X lg s = Inl OutOfBounds) \<and>
   (unat lg < length (repairers (snd s)) \<longrightarrow>
      (\<exists>s'. DB_FindFiles_lg X lg s = Inr s' \<and>
            length (repairers (snd s')) = length (repairers (snd s))))"
  by (cases s) (auto simp: DB_FindFiles_lg_def at_index_def Let_def split: prod.splits)

lemma flush_lg_step:
  "(length (repairers (snd (snd s))) \<le> unat lg \<longrightarrow> flush_lg X log lg s = Inl OutOfBounds) \<and>
   (unat lg < length (repairers (snd (snd s))) \<longrightarrow>
      (\<exists>s'. flush_lg X log lg s = Inr s' \<and>
            length (repairers (snd (snd s'))) = length (repairers (snd (snd s)))))"
  by (cases s)
     (auto simp: flush_lg_def at_index_def Let_def HasMemTable_def BuildTableFile_def
        split: prod.splits option.splits)

lemma replay_record_shape:
  assumes "replay_record X log rcd (h, c, d) = Inr (ret, h', c', d')"
  shows "exist_lg_list d' = exist_lg_list d \<and> length (repairers d') = length (repairers d)
         \<and> db_dbname' d' = db_dbname' d"
proof (cases "rec_size rcd < 12 \<or> Sequence (rec_batch rcd) \<le> last_sequence' d")
  case True
  then show ?thesis using assms by (auto simp: replay_record_def Let_def split: if_splits)
next
  case False
  then have sz: "12 \<le> rec_size rcd" and above: "last_sequence' d < Sequence (rec_batch rcd)"
    by auto
  show ?thesis
  proof (cases ret)
    case None
    from replay_record_replayed(3) [OF sz above assms [unfolded None]]
    have "frame d (d'\<lparr>last_sequence' := last_sequence' d\<rparr>)" .
    then show ?thesis by (auto simp: frame_def dest: arg_cong [where f = length])
  next
    case (Some st)
    then show ?thesis
      using assms False
      by (auto simp: replay_record_def Let_def bind_fault_def
            split: if_splits prod.splits sum.splits)
  qed
qed

lemma replay_records_shape:
  "replay_records X log rcds (h, c, d) = Inr (ret, h', c', d') \<Longrightarrow>
     exist_lg_list d' = exist_lg_list d \<and> length (repairers d') = length (repairers d)
     \<and> db_dbname' d' = db_dbname' d"
proof (induction rcds arbitrary: h c d)
  case Nil
  then show ?case by simp
next
  case (Cons rcd rcds)
  from Cons.prems obtain r1 h1 c1 d1 where
    1: "replay_record X log rcd (h, c, d) = Inr (r1, h1, c1, d1)"
    by (cases "replay_record X log rcd (h, c, d)") auto
  note s1 = replay_record_shape [OF 1]
  show ?case
  proof (cases r1)
    case None
    then have "replay_records X log rcds (h1, c1, d1) = Inr (ret, h', c', d')"
      using Cons.prems 1 by simp
    from Cons.IH [OF this] s1 show ?thesis by simp
  next
    case (Some st)
    then have "d' = d1" using Cons.prems 1 by simp
    then show ?thesis using s1 by simp
  qed
qed

lemma new_DBRepairer_shape:
  assumes "new_DBRepairer X dbname lgs h0 = Inr (h, d0)"
  shows "length (repairers d0) = length (exist_lg_list d0)" "distinct (exist_lg_list d0)"
    "sorted (exist_lg_list d0)" "db_dbname' d0 = dbname"
proof -
  note n = new_DBRepairer_Inr [OF assms]
  show "length (repairers d0) = length (exist_lg_list d0)"
    using n(3) by (metis length_map)
  show "distinct (exist_lg_list d0)" "sorted (exist_lg_list d0)"
    using n(2) by (simp_all split: option.splits)
  show "db_dbname' d0 = dbname" by (rule n(4))
qed

lemma contiguous_ids:
  fixes ids :: "u32 list"
  assumes "distinct ids"
  shows "(\<forall>lg \<in> set ids. unat lg < length ids) \<longleftrightarrow> unat ` set ids = {0..<length ids}"
proof
  assume b: "\<forall>lg \<in> set ids. unat lg < length ids"
  have sub: "unat ` set ids \<subseteq> {0..<length ids}"
    using b by auto
  have "inj_on unat (set ids)"
    by (rule inj_onI) (simp add: word_unat_eq_iff)
  then have "card (unat ` set ids) = card (set ids)"
    by (rule card_image)
  also have "\<dots> = length ids"
    using assms by (rule distinct_card)
  finally have "card (unat ` set ids) = card {0..<length ids}"
    by simp
  with sub show "unat ` set ids = {0..<length ids}"
    by (intro card_subset_eq) simp_all
next
  assume "unat ` set ids = {0..<length ids}"
  then show "\<forall>lg \<in> set ids. unat lg < length ids"
    by (metis atLeastLessThan_iff imageI)
qed

lemma DB_FindFiles_name_shape:
  "exist_lg_list (foldl (DB_FindFiles_name X) d names) = exist_lg_list d \<and>
   repairers (foldl (DB_FindFiles_name X) d names) = repairers d"
  by (induction names arbitrary: d) (auto simp: DB_FindFiles_name_def Let_def split: option.splits)

lemma DB_ExtractMetaData_out_of_bounds:
  assumes "\<exists>lg \<in> set (exist_lg_list d). length (repairers d) \<le> unat lg"
  shows "DB_ExtractMetaData X (h, d) = Inl OutOfBounds"
  unfolding DB_ExtractMetaData_def
  by (rule fold_fault_out_of_bounds [where sz = "\<lambda>s. length (repairers (snd s))"])
     (use assms DB_ExtractMetaData_lg_step in auto)

lemma DB_ExtractMetaData_in_bounds:
  assumes "\<forall>lg \<in> set (exist_lg_list d). unat lg < length (repairers d)"
  shows "\<exists>st. DB_ExtractMetaData X (h, d) = Inr st"
proof -
  have "\<exists>s'. fold_fault (DB_ExtractMetaData_lg X) (exist_lg_list d) (h, d) = Inr s' \<and>
          length (repairers (snd s')) = length (repairers (snd (h, d)))"
    by (rule fold_fault_in_bounds [where sz = "\<lambda>s. length (repairers (snd s))"])
       (use assms DB_ExtractMetaData_lg_step in auto)
  then show ?thesis by (auto simp: DB_ExtractMetaData_def)
qed

lemma DB_FindFiles_out_of_bounds:
  assumes bad: "\<exists>lg \<in> set (exist_lg_list d). length (repairers d) \<le> unat lg"
    and ls: "ok (fst (GetChildren X h (db_dbname' d)))" "snd (GetChildren X h (db_dbname' d)) \<noteq> []"
  shows "DB_FindFiles X (h, d) = Inl OutOfBounds"
proof -
  obtain s names where g: "GetChildren X h (db_dbname' d) = (s, names)"
    by (cases "GetChildren X h (db_dbname' d)")
  let ?d1 = "foldl (DB_FindFiles_name X) d names"
  have "fold_fault (DB_FindFiles_lg X) (exist_lg_list ?d1) (h @ [EGetChildren (db_dbname' d)], ?d1)
          = Inl OutOfBounds"
    by (rule fold_fault_out_of_bounds [where sz = "\<lambda>s. length (repairers (snd s))"])
       (use bad DB_FindFiles_lg_step DB_FindFiles_name_shape in auto)
  then show ?thesis
    using g ls by (simp add: DB_FindFiles_def Let_def)
qed

lemma ConvertLogToTable_out_of_bounds:
  assumes bad: "\<exists>lg \<in> set (exist_lg_list d). length (repairers d) \<le> unat lg"
    and op: "ok (fst (NewSequentialFile X h (LogHexFileName X (db_dbname' d) log)))"
    and rp: "replay_records X log (snd (NewSequentialFile X h (LogHexFileName X (db_dbname' d) log)))
               (h @ [ENewSequentialFile (LogHexFileName X (db_dbname' d) log)], 0, d)
             = Inr (None, h2, c2, d2)"
  shows "ConvertLogToTable X log (h, d) = Inl OutOfBounds"
proof -
  obtain s rcds where g: "NewSequentialFile X h (LogHexFileName X (db_dbname' d) log) = (s, rcds)"
    by (cases "NewSequentialFile X h (LogHexFileName X (db_dbname' d) log)")
  have sh: "exist_lg_list d2 = exist_lg_list d" "length (repairers d2) = length (repairers d)"
    using replay_records_shape [OF rp] by simp_all
  have "fold_fault (flush_lg X log) (exist_lg_list d2) (s, h2, d2) = Inl OutOfBounds"
    by (rule fold_fault_out_of_bounds [where sz = "\<lambda>s. length (repairers (snd (snd s)))"])
       (use bad sh flush_lg_step in auto)
  then show ?thesis
    using g op rp by (simp add: ConvertLogToTable_def Let_def)
qed

text \<open>
  Claim C10. The constructor appends one repairer for each element of \<open>exist_lg_list\<close>, so
  the vector has as many entries as the list; every later access is \<open>repairers[*it]\<close> with
  the id itself. For every later state of the coordinator (same list, same number of
  repairers) all these accesses are in bounds exactly when the ids are the numbers
  \<open>0, ..., n - 1\<close>, and then the metadata extraction runs through. When some id is not
  below the size of the list, the metadata extraction indexes out of bounds; so does
  \<open>FindFiles\<close> once the root directory is listed, and so does the replay of a log that
  opens and whose records are all read (in the loop that flushes the memtables).
\<close>

theorem repairers_indexed_by_lg_id:
  assumes mk: "new_DBRepairer X dbname lgs h0 = Inr (h, d0)"
    and same: "exist_lg_list d = exist_lg_list d0" "length (repairers d) = length (repairers d0)"
  shows "length (repairers d0) = length (exist_lg_list d0)
    \<and> ((\<forall>lg \<in> set (exist_lg_list d). unat lg < length (repairers d)) \<longleftrightarrow>
          unat ` set (exist_lg_list d) = {0..<length (exist_lg_list d)})
    \<and> ((\<forall>lg \<in> set (exist_lg_list d). unat lg < length (repairers d)) \<longrightarrow>
          (\<exists>st. DB_ExtractMetaData X (h1, d) = Inr st))
    \<and> ((\<exists>lg \<in> set (exist_lg_list d). length (exist_lg_list d) \<le> unat lg) \<longrightarrow>
          DB_ExtractMetaData X (h1, d) = Inl OutOfBounds
        \<and> (ok (fst (GetChildren X h1 (db_dbname' d))) \<and> snd (GetChildren X h1 (db_dbname' d)) \<noteq> []
             \<longrightarrow> DB_FindFiles X (h1, d) = Inl OutOfBounds)
        \<and> (\<forall>log h2 c2 d2.
              ok (fst (NewSequentialFile X h1 (LogHexFileName X (db_dbname' d) log))) \<and>
              replay_records X log (snd (NewSequentialFile X h1 (LogHexFileName X (db_dbname' d) log)))
                (h1 @ [ENewSequentialFile (LogHexFileName X (db_dbname' d) log)], 0, d)
                = Inr (None, h2, c2, d2)
              \<longrightarrow> ConvertLogToTable X log (h1, d) = Inl OutOfBounds))"
proof -
  note sh = new_DBRepairer_shape [OF mk]
  have len: "length (repairers d) = length (exist_lg_list d)"
    using sh(1) same by simp
  have dist: "distinct (exist_lg_list d)"
    using sh(2) same by simp
  have 1: "length (repairers d0) = length (exist_lg_list d0)"
    by (rule sh(1))
  have 2: "(\<forall>lg \<in> set (exist_lg_list d). unat lg < length (repairers d)) \<longleftrightarrow>
          unat ` set (exist_lg_list d) = {0..<length (exist_lg_list d)}"
    using contiguous_ids [OF dist] len by simp
  have 3: "\<exists>st. DB_ExtractMetaData X (h1, d) = Inr st"
    if "\<forall>lg \<in> set (exist_lg_list d). unat lg < length (repairers d)"
    using DB_ExtractMetaData_in_bounds [OF that] .
  have 4: "DB_ExtractMetaData X (h1, d) = Inl OutOfBounds
        \<and> (ok (fst (GetChildren X h1 (db_dbname' d))) \<and> snd (GetChildren X h1 (db_dbname' d)) \<noteq> []
             \<longrightarrow> DB_FindFiles X (h1, d) = Inl OutOfBounds)
        \<and> (\<forall>log h2 c2 d2.
              ok (fst (NewSequentialFile X h1 (LogHexFileName X (db_dbname' d) log))) \<and>
              replay_records X log (snd (NewSequentialFile X h1 (LogHexFileName X (db_dbname' d) log)))
                (h1 @ [ENewSequentialFile (LogHexFileName X (db_dbname' d) log)], 0, d)
                = Inr (None, h2, c2, d2)
              \<longrightarrow> ConvertLogToTable X log (h1, d) = Inl OutOfBounds)"
    if b: "\<exists>lg \<in> set (exist_lg_list d). length (exist_lg_list d) \<le> unat lg"
  proof -
    have bad: "\<exists>lg \<in> set (exist_lg_list d). length (repairers d) \<le> unat lg"
      using b len by simp
    show ?thesis
      using DB_ExtractMetaData_out_of_bounds [OF bad] DB_FindFiles_out_of_bounds [OF bad]
        ConvertLogToTable_out_of_bounds [OF bad]
      by blast
  qed
  show ?thesis using 1 2 3 4 by blast
qed

theorem repairers_indexed_by_lg_id_witness:
  "new_DBRepairer quiet ''db'' (Some [5, 0]) [] =
     Inr ([ECreateDir ''db'', ESanitizeOptions ''db/0'', ELog (LogCreateTableCache ''db/0''),
           ESanitizeOptions ''db/5'', ELog (LogCreateTableCache ''db/5'')], lgs_0_5)
   \<and> length (repairers lgs_0_5) = 2
   \<and> unat ` set (exist_lg_list lgs_0_5) \<noteq> {0..<2}
   \<and> DB_ExtractMetaData quiet ([ECreateDir ''db''], lgs_0_5) = Inl OutOfBounds
   \<and> ConvertLogToTable quiet 5 ([ECreateDir ''db''], lgs_0_5) = Inl OutOfBounds
   \<and> (\<exists>st. DB_ExtractMetaData quiet ([ECreateDir ''db''], two_lgs) = Inr st)"
proof -
  have mk: "new_DBRepairer quiet ''db'' (Some [5, 0]) [] =
     Inr ([ECreateDir ''db'', ESanitizeOptions ''db/0'', ELog (LogCreateTableCache ''db/0''),
           ESanitizeOptions ''db/5'', ELog (LogCreateTableCache ''db/5'')], lgs_0_5)"
    by (simp add: new_DBRepairer_def InitDefaultOptions_def construct_Repairer_def quiet_def
          lgs_0_5_def digit_name_def)
  have sel: "exist_lg_list lgs_0_5 = [0, 5]" "length (repairers lgs_0_5) = 2"
    "db_dbname' lgs_0_5 = ''db''"
    by (simp_all add: lgs_0_5_def)
  have bad: "\<exists>lg \<in> set (exist_lg_list lgs_0_5). length (exist_lg_list lgs_0_5) \<le> unat lg"
    by (simp add: sel)
  have op: "NewSequentialFile quiet h n = (OK, [])" for h n
    by (simp add: quiet_def)
  note T = repairers_indexed_by_lg_id [OF mk refl refl, of "[ECreateDir ''db'']"]
  have a: "length (repairers lgs_0_5) = 2" by (rule sel)
  have b: "unat ` set (exist_lg_list lgs_0_5) \<noteq> {0..<2}"
    using T [THEN conjunct2, THEN conjunct1] bad by (auto simp add: sel)
  have c: "DB_ExtractMetaData quiet ([ECreateDir ''db''], lgs_0_5) = Inl OutOfBounds"
    using T bad by blast
  have d: "ConvertLogToTable quiet 5 ([ECreateDir ''db''], lgs_0_5) = Inl OutOfBounds"
    using T [THEN conjunct2, THEN conjunct2, THEN conjunct2, rule_format, OF bad,
             THEN conjunct2, THEN conjunct2, rule_format, of 5]
    by (simp add: op)
  have e: "\<exists>st. DB_ExtractMetaData quiet ([ECreateDir ''db''], two_lgs) = Inr st"
    using repairers_indexed_by_lg_id [OF new_DBRepairer_two_lgs refl refl, of "[ECreateDir ''db'']"]
    by (simp add: two_lgs_def)
  show ?thesis using mk a b c d e by blast
qed

subsection \<open>The order of the replay\<close>




























subsection \<open>The next file number of the descriptor\<close>











lemma grown_refl [simp]: "grown k r r"
  by (auto simp add: grown_def intro: exI [of _ 0])

lemma grown_trans: "grown a r r1 \<Longrightarrow> grown b r1 r2 \<Longrightarrow> grown (a + b) r r2"
proof -
  assume 1: "grown a r r1" and 2: "grown b r1 r2"
  obtain m1 where m1: "m1 \<le> a" "next_file_number' r1 = next_file_number' r + of_nat m1"
    using 1 by (auto simp: grown_def)
  obtain m2 where m2: "m2 \<le> b" "next_file_number' r2 = next_file_number' r1 + of_nat m2"
    using 2 by (auto simp: grown_def)
  have "m1 + m2 \<le> a + b" "next_file_number' r2 = next_file_number' r + of_nat (m1 + m2)"
    using m1 m2 by simp_all
  then have "\<exists>m \<le> a + b. next_file_number' r2 = next_file_number' r + of_nat m"
    by blast
  then show ?thesis using 1 2 by (simp add: grown_def)
qed



lemma all_grown_refl [simp]: "all_grown f d d"
  by (simp add: all_grown_def)

lemma all_grown_trans:
  "all_grown f d d1 \<Longrightarrow> all_grown g d1 d2 \<Longrightarrow> all_grown (\<lambda>j. f j + g j) d d2"
  by (auto simp add: all_grown_def intro: grown_trans)



lemma all_grown_trans_zero:
  "all_grown f d d1 \<Longrightarrow> all_grown (\<lambda>j. 0) d1 d2 \<Longrightarrow> all_grown f d d2"
  using all_grown_trans [of f d d1 "\<lambda>j. 0" d2] by simp











































end
